theory Spec2Isabelle
  imports Complex_Main
begin

section \<open>The client-side wrapper module (static/js/main.js)\<close>

subsection \<open>Values, completions and the browser state\<close>

text \<open>
  A JavaScript value as far as the module handles one: the callback handed to
  \<open>safeSubmit\<close> (a function object, named by its reference, or anything else a
  caller passes) and the value a \<open>throw\<close> carries.
\<close>

datatype js_value =
    Undefined
  | StringValue string
  | ErrorObject string string
  | FunctionRef nat

text \<open>A statement or call either completes normally or throws a value.\<close>

datatype completion = Normal | Throw js_value

datatype console_entry =
    ConsoleLog string
  | ConsoleError string js_value

text \<open>
  The function object that \<open>safeSubmit\<close> creates at line 18. Every evaluation of the
  function expression yields a new object, so the closure carries its identity next
  to the \<open>callback\<close> it has captured.
\<close>

datatype listener = SubmitGuard nat js_value

record element =
  listeners :: "(string \<times> listener) list"

record event =
  ev_type :: string
  cancelable :: bool
  defaultPrevented :: bool

record browser =
  location_href :: string
  console :: "console_entry list"
  alerts :: "string list"
  elements :: "string \<Rightarrow> element option"
  next_function :: nat

type_synonym js_stmt = "browser \<Rightarrow> completion \<times> browser"

text \<open>
  What lies outside the module: the bodies of the functions a caller may pass as
  callback, and the cases in which the browser refuses an assignment to
  \<open>window.location.href\<close> (the value it throws then).
\<close>

record platform =
  function_body :: "nat \<Rightarrow> js_stmt"
  href_failure :: "string \<Rightarrow> browser \<Rightarrow> js_value option"

subsection \<open>Statements\<close>

definition seq :: "js_stmt \<Rightarrow> js_stmt \<Rightarrow> js_stmt" where
  "seq s t w = (case s w of (Normal, w') \<Rightarrow> t w' | (Throw v, w') \<Rightarrow> (Throw v, w'))"

definition try_catch :: "js_stmt \<Rightarrow> (js_value \<Rightarrow> js_stmt) \<Rightarrow> js_stmt" where
  "try_catch s h w = (case s w of (Normal, w') \<Rightarrow> (Normal, w') | (Throw v, w') \<Rightarrow> h v w')"

definition console_error :: "string \<Rightarrow> js_value \<Rightarrow> js_stmt" where
  "console_error msg v w = (Normal, w\<lparr>console := console w @ [ConsoleError msg v]\<rparr>)"

definition alert :: "string \<Rightarrow> js_stmt" where
  "alert msg w = (Normal, w\<lparr>alerts := alerts w @ [msg]\<rparr>)"

text \<open>\<open>window.location.href = url\<close>: the location changes unless the browser throws.\<close>

definition assign_location_href :: "platform \<Rightarrow> string \<Rightarrow> js_stmt" where
  "assign_location_href P url w =
     (case href_failure P url w of
        Some v \<Rightarrow> (Throw v, w)
      | None \<Rightarrow> (Normal, w\<lparr>location_href := url\<rparr>))"

text \<open>\<open>callback()\<close>: calling a value that is not a function throws a TypeError.\<close>

definition call_value :: "platform \<Rightarrow> js_value \<Rightarrow> js_stmt" where
  "call_value P f w =
     (case f of
        FunctionRef r \<Rightarrow> function_body P r w
      | _ \<Rightarrow> (Throw (ErrorObject ''TypeError'' ''callback is not a function''), w))"

subsection \<open>navigateTo\<close>

definition navigateTo :: "platform \<Rightarrow> string \<Rightarrow> js_stmt" where
  "navigateTo P url =
     try_catch (assign_location_href P url)
       (\<lambda>error. seq (console_error ''Navigation error:'' error)
                     (alert ''Navigation error. Please refresh the page.''))"

subsection \<open>Events and listeners\<close>

definition getElementById :: "browser \<Rightarrow> string \<Rightarrow> element option" where
  "getElementById w i = elements w i"

text \<open>
  \<open>addEventListener\<close> appends the listener unless the target already holds one of the
  same type with the same callback object.
\<close>

definition addEventListener :: "string \<Rightarrow> listener \<Rightarrow> element \<Rightarrow> element" where
  "addEventListener ty l el =
     (if (ty, l) \<in> set (listeners el) then el
      else el\<lparr>listeners := listeners el @ [(ty, l)]\<rparr>)"

text \<open>\<open>e.preventDefault()\<close> sets the canceled flag of a cancelable event.\<close>

definition preventDefault :: "event \<Rightarrow> event" where
  "preventDefault e = (if cancelable e then e\<lparr>defaultPrevented := True\<rparr> else e)"

text \<open>The body of the listener of lines 18 to 26, for the captured \<open>callback\<close>.\<close>

definition submit_handler ::
  "platform \<Rightarrow> js_value \<Rightarrow> event \<Rightarrow> browser \<Rightarrow> event \<times> completion \<times> browser" where
  "submit_handler P callback e w =
     (let e' = preventDefault e
      in (e',
          try_catch (call_value P callback)
            (\<lambda>error. seq (console_error ''Form submission error:'' error)
                          (alert ''Error submitting form. Please try again.'')) w))"

fun invoke :: "platform \<Rightarrow> listener \<Rightarrow> event \<Rightarrow> browser \<Rightarrow> event \<times> completion \<times> browser" where
  "invoke P (SubmitGuard i callback) e w = submit_handler P callback e w"

text \<open>
  Dispatch runs the listeners of the event's type that the target holds when the
  dispatch starts, in registration order. An exception a listener lets escape is
  reported and the next listener still runs; the reported values are collected.
\<close>

fun run_listeners ::
  "platform \<Rightarrow> listener list \<Rightarrow> event \<Rightarrow> browser \<Rightarrow> event \<times> js_value list \<times> browser" where
  "run_listeners P [] e w = (e, [], w)"
| "run_listeners P (l # ls) e w =
     (case invoke P l e w of
        (e1, c, w1) \<Rightarrow>
          (case run_listeners P ls e1 w1 of
             (e2, reported, w2) \<Rightarrow>
               (e2, (case c of Normal \<Rightarrow> [] | Throw v \<Rightarrow> [v]) @ reported, w2)))"

definition listeners_for :: "string \<Rightarrow> element \<Rightarrow> listener list" where
  "listeners_for ty el = map snd (filter (\<lambda>p. fst p = ty) (listeners el))"

definition dispatchEvent ::
  "platform \<Rightarrow> string \<Rightarrow> event \<Rightarrow> browser \<Rightarrow> event \<times> js_value list \<times> browser" where
  "dispatchEvent P target e w =
     (case getElementById w target of
        None \<Rightarrow> (e, [], w)
      | Some el \<Rightarrow> run_listeners P (listeners_for (ev_type e) el) e w)"

subsection \<open>safeSubmit\<close>

definition safeSubmit :: "string \<Rightarrow> js_value \<Rightarrow> js_stmt" where
  "safeSubmit formId callback w =
     (case getElementById w formId of
        None \<Rightarrow> (Normal, w)
      | Some form \<Rightarrow>
          (let l = SubmitGuard (next_function w) callback;
               w' = w\<lparr>next_function := Suc (next_function w)\<rparr>
           in (Normal,
               w'\<lparr>elements := (elements w')(formId \<mapsto> addEventListener ''submit'' l form)\<rparr>)))"



text \<open>The listener \<open>l\<close> is registered for submit events on the element with this id.\<close>

definition registered :: "listener \<Rightarrow> string \<Rightarrow> browser \<Rightarrow> bool" where
  "registered l formId w =
     (case getElementById w formId of
        None \<Rightarrow> False
      | Some el \<Rightarrow> (''submit'', l) \<in> set (listeners el))"

subsection \<open>A concrete page\<close>

text \<open>
  A page with one form and two callbacks: function 0 throws, every other function logs
  a line. The browser refuses one malformed URL.
\<close>

definition example_platform :: platform where
  "example_platform =
     \<lparr>function_body = (\<lambda>r w.
          if r = 0 then (Throw (ErrorObject ''Error'' ''boom''), w)
          else (Normal, w\<lparr>console := console w @ [ConsoleLog ''submitted'']\<rparr>)),
      href_failure = (\<lambda>url w.
          if url = ''http://['' then Some (ErrorObject ''SyntaxError'' ''Invalid URL'') else None)\<rparr>"

definition example_browser :: browser where
  "example_browser =
     \<lparr>location_href = ''/'', console = [], alerts = [],
      elements = [''loginForm'' \<mapsto> \<lparr>listeners = []\<rparr>], next_function = 2\<rparr>"

definition submit_event :: event where
  "submit_event = \<lparr>ev_type = ''submit'', cancelable = True, defaultPrevented = False\<rparr>"

section \<open>The schema (database/schema_postgresql.sql)\<close>

subsection \<open>Values\<close>

text \<open>
  A \<open>numeric\<close> value is a decimal number with its digits and its scale:
  \<open>Dec m s\<close> stands for \<open>m / 10^s\<close>, so \<open>85.50\<close> is \<open>Dec 8550 2\<close>.
  PostgreSQL's \<open>numeric\<close> type has three more values, which are not numbers:
  \<open>NaN\<close> and the two infinities. A number of a JSON text is always a decimal.
\<close>

datatype decimal = Dec int nat

datatype special = NaN | PlusInfinity | MinusInfinity

definition dec_value :: "decimal \<Rightarrow> rat" where
  "dec_value d = (case d of Dec m s \<Rightarrow> of_int m / 10 ^ s)"

datatype json =
    JNull
  | JBool bool
  | JNumber decimal
  | JString string
  | JArray "json list"
  | JObject "(string \<times> json) list"

datatype sql_value =
    Null
  | IntegerValue int
  | TextValue string
  | NumericValue decimal
  | SpecialNumeric special
  | JsonValue json
  | TimestampValue int

subsection \<open>The jsonb type\<close>

text \<open>
  A \<open>jsonb\<close> value does not keep the text it was read from: the keys of an object
  are stored once, the last value given for a key wins, and they are ordered by length
  and then bytewise. Numbers are stored as \<open>numeric\<close> and keep their scale.
\<close>

fun bytes_less :: "string \<Rightarrow> string \<Rightarrow> bool" where
  "bytes_less [] [] = False"
| "bytes_less [] (y # ys) = True"
| "bytes_less (x # xs) [] = False"
| "bytes_less (x # xs) (y # ys) =
     ((of_char x :: nat) < of_char y \<or> (x = y \<and> bytes_less xs ys))"

definition jsonb_key_less :: "string \<Rightarrow> string \<Rightarrow> bool" where
  "jsonb_key_less a b =
     (length a < length b \<or> (length a = length b \<and> bytes_less a b))"

fun jsonb_put :: "string \<Rightarrow> json \<Rightarrow> (string \<times> json) list \<Rightarrow> (string \<times> json) list" where
  "jsonb_put k v [] = [(k, v)]"
| "jsonb_put k v ((k', v') # kvs) =
     (if k = k' then (k, v) # kvs
      else if jsonb_key_less k k' then (k, v) # (k', v') # kvs
      else (k', v') # jsonb_put k v kvs)"

definition jsonb_object :: "(string \<times> json) list \<Rightarrow> (string \<times> json) list" where
  "jsonb_object kvs = foldl (\<lambda>acc kv. jsonb_put (fst kv) (snd kv) acc) [] kvs"

primrec jsonb_in :: "json \<Rightarrow> json" where
  "jsonb_in JNull = JNull"
| "jsonb_in (JBool b) = JBool b"
| "jsonb_in (JNumber d) = JNumber d"
| "jsonb_in (JString s) = JString s"
| "jsonb_in (JArray xs) = JArray (map jsonb_in xs)"
| "jsonb_in (JObject kvs) = JObject (jsonb_object (map (map_prod id jsonb_in) kvs))"

text \<open>The text a query gets back for a \<open>jsonb\<close> value.\<close>

fun digits_of :: "nat \<Rightarrow> string" where
  "digits_of n =
     (if n < 10 then [''0123456789'' ! n]
      else digits_of (n div 10) @ [''0123456789'' ! (n mod 10)])"

definition numeric_out :: "decimal \<Rightarrow> string" where
  "numeric_out d =
     (case d of Dec m s \<Rightarrow>
        (let ds = digits_of (nat \<bar>m\<bar>);
             padded = replicate (Suc s - length ds) CHR ''0'' @ ds;
             whole = take (length padded - s) padded;
             fraction = drop (length padded - s) padded
         in (if m < 0 then ''-'' else []) @ whole @
            (if s = 0 then [] else ''.'' @ fraction)))"

definition json_escape :: "char \<Rightarrow> string" where
  "json_escape c =
     (if c = CHR 0x22 then [CHR 0x5C, CHR 0x22]
      else if c = CHR 0x5C then [CHR 0x5C, CHR 0x5C]
      else if c = CHR 0x08 then [CHR 0x5C, CHR ''b'']
      else if c = CHR 0x0C then [CHR 0x5C, CHR ''f'']
      else if c = CHR 0x0A then [CHR 0x5C, CHR ''n'']
      else if c = CHR 0x0D then [CHR 0x5C, CHR ''r'']
      else if c = CHR 0x09 then [CHR 0x5C, CHR ''t'']
      else if (of_char c :: nat) < 32 then
        [CHR 0x5C, CHR ''u'', CHR ''0'', CHR ''0'',
         ''0123456789abcdef'' ! (of_char c div 16), ''0123456789abcdef'' ! (of_char c mod 16)]
      else [c])"

definition json_quote :: "string \<Rightarrow> string" where
  "json_quote s = [CHR 0x22] @ concat (map json_escape s) @ [CHR 0x22]"

fun join_with :: "string \<Rightarrow> string list \<Rightarrow> string" where
  "join_with sep [] = []"
| "join_with sep [x] = x"
| "join_with sep (x # y # ys) = x @ sep @ join_with sep (y # ys)"

primrec jsonb_out :: "json \<Rightarrow> string" where
  "jsonb_out JNull = ''null''"
| "jsonb_out (JBool b) = (if b then ''true'' else ''false'')"
| "jsonb_out (JNumber d) = numeric_out d"
| "jsonb_out (JString s) = json_quote s"
| "jsonb_out (JArray xs) = ''['' @ join_with '', '' (map jsonb_out xs) @ '']''"
| "jsonb_out (JObject kvs) =
     ''{'' @ join_with '', '' (map (\<lambda>kv. json_quote (fst kv) @ '': '' @ snd kv)
                                  (map (map_prod id jsonb_out) kvs)) @ ''}''"

text \<open>The member of an object, as the arrow operator of \<open>jsonb\<close> reads it.\<close>

definition json_member :: "json \<Rightarrow> string \<Rightarrow> json option" where
  "json_member j k = (case j of JObject kvs \<Rightarrow> map_of kvs k | _ \<Rightarrow> None)"

subsection \<open>Tables and columns\<close>

datatype sql_type =
    SERIAL
  | INTEGER
  | VARCHAR nat
  | DECIMAL nat nat
  | JSONB
  | TIMESTAMP
  | TEXT

datatype default_expr =
    Constant sql_value
  | CURRENT_TIMESTAMP

record column =
  col_name :: string
  col_type :: sql_type
  col_not_null :: bool
  col_primary_key :: bool
  col_unique :: bool
  col_default :: "default_expr option"
  col_references :: "(string \<times> string) option"

record table =
  table_name :: string
  table_columns :: "column list"

text \<open>A column definition is its name and type followed by its constraints.\<close>

definition col :: "string \<Rightarrow> sql_type \<Rightarrow> column" where
  "col n t =
     \<lparr>col_name = n, col_type = t, col_not_null = False, col_primary_key = False,
      col_unique = False, col_default = None, col_references = None\<rparr>"

definition NOT_NULL :: "column \<Rightarrow> column" where
  "NOT_NULL c = c\<lparr>col_not_null := True\<rparr>"

definition PRIMARY_KEY :: "column \<Rightarrow> column" where
  "PRIMARY_KEY c = c\<lparr>col_primary_key := True\<rparr>"

definition UNIQUE :: "column \<Rightarrow> column" where
  "UNIQUE c = c\<lparr>col_unique := True\<rparr>"

definition DEFAULT :: "default_expr \<Rightarrow> column \<Rightarrow> column" where
  "DEFAULT d c = c\<lparr>col_default := Some d\<rparr>"

definition REFERENCES :: "string \<Rightarrow> string \<Rightarrow> column \<Rightarrow> column" where
  "REFERENCES t k c = c\<lparr>col_references := Some (t, k)\<rparr>"

subsection \<open>The four tables\<close>

definition cardholders :: table where
  "cardholders =
     \<lparr>table_name = ''cardholders'',
      table_columns =
        [PRIMARY_KEY (col ''cardholder_id'' SERIAL),
         NOT_NULL (col ''name'' (VARCHAR 100)),
         UNIQUE (NOT_NULL (col ''card_number'' (VARCHAR 16))),
         NOT_NULL (col ''account_number'' (VARCHAR 20)),
         col ''behavior_profile'' JSONB,
         DEFAULT CURRENT_TIMESTAMP (col ''created_at'' TIMESTAMP),
         DEFAULT CURRENT_TIMESTAMP (col ''updated_at'' TIMESTAMP)]\<rparr>"

definition transactions :: table where
  "transactions =
     \<lparr>table_name = ''transactions'',
      table_columns =
        [PRIMARY_KEY (col ''transaction_id'' SERIAL),
         REFERENCES ''cardholders'' ''cardholder_id'' (NOT_NULL (col ''cardholder_id'' INTEGER)),
         NOT_NULL (col ''amount'' (DECIMAL 10 2)),
         NOT_NULL (col ''merchant_id'' (VARCHAR 20)),
         NOT_NULL (col ''location'' (VARCHAR 100)),
         NOT_NULL (col ''date_time'' TIMESTAMP),
         DEFAULT CURRENT_TIMESTAMP (col ''created_at'' TIMESTAMP)]\<rparr>"

definition fraud_detection_logs :: table where
  "fraud_detection_logs =
     \<lparr>table_name = ''fraud_detection_logs'',
      table_columns =
        [PRIMARY_KEY (col ''log_id'' SERIAL),
         REFERENCES ''transactions'' ''transaction_id'' (NOT_NULL (col ''transaction_id'' INTEGER)),
         NOT_NULL (col ''score_rf'' (DECIMAL 4 2)),
         NOT_NULL (col ''score_lr'' (DECIMAL 4 2)),
         NOT_NULL (col ''final_score'' (DECIMAL 4 2)),
         NOT_NULL (col ''decision'' (VARCHAR 20)),
         DEFAULT CURRENT_TIMESTAMP (col ''created_at'' TIMESTAMP)]\<rparr>"

definition case_management :: table where
  "case_management =
     \<lparr>table_name = ''case_management'',
      table_columns =
        [PRIMARY_KEY (col ''case_id'' SERIAL),
         REFERENCES ''transactions'' ''transaction_id'' (NOT_NULL (col ''transaction_id'' INTEGER)),
         NOT_NULL (col ''risk_level'' (VARCHAR 10)),
         DEFAULT (Constant (TextValue ''Pending'')) (col ''status'' (VARCHAR 20)),
         col ''audit_trail'' TEXT,
         DEFAULT CURRENT_TIMESTAMP (col ''created_at'' TIMESTAMP),
         DEFAULT CURRENT_TIMESTAMP (col ''updated_at'' TIMESTAMP)]\<rparr>"

definition schema :: "table list" where
  "schema = [cardholders, transactions, fraud_detection_logs, case_management]"

definition lookup_table :: "table list \<Rightarrow> string \<Rightarrow> table option" where
  "lookup_table S t = find (\<lambda>T. table_name T = t) S"

subsection \<open>The database state and the errors of an insert\<close>

type_synonym row = "(string \<times> sql_value) list"

text \<open>
  The rows of each table in insertion order, and for each sequence the value its next
  \<open>nextval\<close> returns. A sequence is not rolled back when a statement fails.
\<close>

record database =
  rows_of :: "string \<Rightarrow> row list"
  sequences :: "string \<Rightarrow> int"

definition empty_database :: database where
  "empty_database = \<lparr>rows_of = (\<lambda>t. []), sequences = (\<lambda>s. 1)\<rparr>"

definition field :: "row \<Rightarrow> string \<Rightarrow> sql_value" where
  "field r c = (case map_of r c of Some v \<Rightarrow> v | None \<Rightarrow> Null)"

datatype sql_error =
    UndefinedTable string
  | UndefinedColumn string
  | DuplicateColumn string
  | SyntaxError
  | DatatypeMismatch string
  | StringDataRightTruncation string
  | NumericValueOutOfRange string
  | FeatureNotSupported string
  | NotNullViolation string
  | UniqueViolation string
  | ForeignKeyViolation string

subsection \<open>Assignment to a column type\<close>

text \<open>
  Rounding to \<open>s\<close> fractional digits, half away from zero; the result is the
  number of units of \<open>10^-s\<close>.
\<close>

definition round_to_scale :: "nat \<Rightarrow> decimal \<Rightarrow> int" where
  "round_to_scale s d =
     (case d of Dec m k \<Rightarrow>
        if k \<le> s then m * 10 ^ (s - k)
        else sgn m * ((\<bar>m\<bar> + 10 ^ (k - s) div 2) div 10 ^ (k - s)))"

definition to_integer :: "string \<Rightarrow> int \<Rightarrow> sql_error + sql_value" where
  "to_integer n i =
     (if - (2 ^ 31) \<le> i \<and> i < 2 ^ 31 then Inr (IntegerValue i)
      else Inl (NumericValueOutOfRange n))"

text \<open>
  A number assigned to a \<open>DECIMAL(p,s)\<close> column is rounded to \<open>s\<close> fractional
  digits and must then have at most \<open>p\<close> digits.
\<close>

definition to_numeric :: "string \<Rightarrow> nat \<Rightarrow> nat \<Rightarrow> decimal \<Rightarrow> sql_error + sql_value" where
  "to_numeric n p s d =
     (let m = round_to_scale s d
      in if \<bar>m\<bar> < 10 ^ p then Inr (NumericValue (Dec m s))
         else Inl (NumericValueOutOfRange n))"

text \<open>
  The values that are not numbers bypass the rounding and the digit count: \<open>NaN\<close> is
  stored in a column of any precision and scale, an infinity in none that declares a
  precision. None of them converts to an integer.
\<close>

definition special_to_numeric :: "string \<Rightarrow> special \<Rightarrow> sql_error + sql_value" where
  "special_to_numeric n x =
     (case x of
        NaN \<Rightarrow> Inr (SpecialNumeric NaN)
      | PlusInfinity \<Rightarrow> Inl (NumericValueOutOfRange n)
      | MinusInfinity \<Rightarrow> Inl (NumericValueOutOfRange n))"

text \<open>
  A string longer than a \<open>VARCHAR(n)\<close> column is an error, unless what exceeds
  \<open>n\<close> characters is spaces only: then it is cut to \<open>n\<close> characters.
\<close>

definition to_varchar :: "string \<Rightarrow> nat \<Rightarrow> string \<Rightarrow> sql_error + sql_value" where
  "to_varchar c n s =
     (if length s \<le> n then Inr (TextValue s)
      else if list_all (\<lambda>x. x = CHR '' '') (drop n s) then Inr (TextValue (take n s))
      else Inl (StringDataRightTruncation c))"

text \<open>
  The value a column stores for a given value. A value arrives in the kind of the
  column's type (an integer is also taken for a numeric column and a numeric value,
  rounded, for an integer column). A value of another kind is refused here: the casts
  the engine would try for it are not part of this model.
\<close>

fun coerce :: "string \<Rightarrow> sql_type \<Rightarrow> sql_value \<Rightarrow> sql_error + sql_value" where
  "coerce n ty Null = Inr Null"
| "coerce n SERIAL (IntegerValue i) = to_integer n i"
| "coerce n SERIAL (NumericValue d) = to_integer n (round_to_scale 0 d)"
| "coerce n SERIAL (SpecialNumeric x) = Inl (FeatureNotSupported n)"
| "coerce n INTEGER (IntegerValue i) = to_integer n i"
| "coerce n INTEGER (NumericValue d) = to_integer n (round_to_scale 0 d)"
| "coerce n INTEGER (SpecialNumeric x) = Inl (FeatureNotSupported n)"
| "coerce n (VARCHAR k) (TextValue s) = to_varchar n k s"
| "coerce n TEXT (TextValue s) = Inr (TextValue s)"
| "coerce n (DECIMAL p s) (NumericValue d) = to_numeric n p s d"
| "coerce n (DECIMAL p s) (IntegerValue i) = to_numeric n p s (Dec i 0)"
| "coerce n (DECIMAL p s) (SpecialNumeric x) = special_to_numeric n x"
| "coerce n JSONB (JsonValue j) = Inr (JsonValue (jsonb_in j))"
| "coerce n TIMESTAMP (TimestampValue t) = Inr (TimestampValue t)"
| "coerce n ty v = Inl (DatatypeMismatch n)"

subsection \<open>Building the row of an insert\<close>

text \<open>
  An expression of a \<open>VALUES\<close> list is a value or the keyword \<open>DEFAULT\<close>; a column
  the statement does not name gets its default as well.
\<close>

datatype expr = Literal sql_value | UseDefault

definition seq_name :: "string \<Rightarrow> string \<Rightarrow> string" where
  "seq_name t c = t @ ''_'' @ c @ ''_seq''"

text \<open>
  The default of a \<open>SERIAL\<close> column is the next value of its sequence; another
  column has the default it declares, or \<open>NULL\<close>.
\<close>

definition default_value ::
  "int \<Rightarrow> string \<Rightarrow> column \<Rightarrow> database \<Rightarrow> (sql_error + sql_value) \<times> database" where
  "default_value now t c db =
     (if col_type c = SERIAL then
        (let s = seq_name t (col_name c); n = sequences db s
         in (coerce (col_name c) SERIAL (IntegerValue n),
             db\<lparr>sequences := (sequences db)(s := n + 1)\<rparr>))
      else
        (case col_default c of
           None \<Rightarrow> (Inr Null, db)
         | Some (Constant v) \<Rightarrow> (coerce (col_name c) (col_type c) v, db)
         | Some CURRENT_TIMESTAMP \<Rightarrow>
             (coerce (col_name c) (col_type c) (TimestampValue now), db)))"

definition column_value ::
  "int \<Rightarrow> string \<Rightarrow> (string \<times> expr) list \<Rightarrow> column \<Rightarrow> database \<Rightarrow>
     (sql_error + sql_value) \<times> database" where
  "column_value now t given c db =
     (case map_of given (col_name c) of
        Some (Literal v) \<Rightarrow> (coerce (col_name c) (col_type c) v, db)
      | Some UseDefault \<Rightarrow> default_value now t c db
      | None \<Rightarrow> default_value now t c db)"

fun build_row ::
  "int \<Rightarrow> string \<Rightarrow> (string \<times> expr) list \<Rightarrow> column list \<Rightarrow> database \<Rightarrow>
     (sql_error + row) \<times> database" where
  "build_row now t given [] db = (Inr [], db)"
| "build_row now t given (c # cs) db =
     (case column_value now t given c db of
        (Inl e, db1) \<Rightarrow> (Inl e, db1)
      | (Inr v, db1) \<Rightarrow>
          (case build_row now t given cs db1 of
             (Inl e, db2) \<Rightarrow> (Inl e, db2)
           | (Inr r, db2) \<Rightarrow> (Inr ((col_name c, v) # r), db2)))"

subsection \<open>Constraints\<close>

text \<open>
  A primary key is unique and not null, and a \<open>SERIAL\<close> column is not null. The
  constraints carry the names the engine gives them.
\<close>

definition is_not_null :: "column \<Rightarrow> bool" where
  "is_not_null c = (col_not_null c \<or> col_primary_key c \<or> col_type c = SERIAL)"

definition is_unique :: "column \<Rightarrow> bool" where
  "is_unique c = (col_unique c \<or> col_primary_key c)"

definition unique_name :: "string \<Rightarrow> column \<Rightarrow> string" where
  "unique_name t c =
     (if col_primary_key c then t @ ''_pkey'' else t @ ''_'' @ col_name c @ ''_key'')"

definition fkey_name :: "string \<Rightarrow> column \<Rightarrow> string" where
  "fkey_name t c = t @ ''_'' @ col_name c @ ''_fkey''"

definition not_null_violation :: "column list \<Rightarrow> row \<Rightarrow> sql_error option" where
  "not_null_violation cs r =
     (case find (\<lambda>c. is_not_null c \<and> field r (col_name c) = Null) cs of
        None \<Rightarrow> None
      | Some c \<Rightarrow> Some (NotNullViolation (col_name c)))"

definition unique_violation ::
  "string \<Rightarrow> column list \<Rightarrow> row list \<Rightarrow> row \<Rightarrow> sql_error option" where
  "unique_violation t cs rs r =
     (case find (\<lambda>c. is_unique c \<and> field r (col_name c) \<noteq> Null \<and>
                     list_ex (\<lambda>r'. field r' (col_name c) = field r (col_name c)) rs) cs of
        None \<Rightarrow> None
      | Some c \<Rightarrow> Some (UniqueViolation (unique_name t c)))"

definition dangling :: "database \<Rightarrow> row \<Rightarrow> column \<Rightarrow> bool" where
  "dangling db r c =
     (case col_references c of
        None \<Rightarrow> False
      | Some (t', k) \<Rightarrow>
          field r (col_name c) \<noteq> Null \<and>
          \<not> list_ex (\<lambda>r'. field r' k = field r (col_name c)) (rows_of db t'))"

definition foreign_key_violation ::
  "string \<Rightarrow> column list \<Rightarrow> database \<Rightarrow> row \<Rightarrow> sql_error option" where
  "foreign_key_violation t cs db r =
     (case find (dangling db r) cs of
        None \<Rightarrow> None
      | Some c \<Rightarrow> Some (ForeignKeyViolation (fkey_name t c)))"

fun first_error :: "('a \<Rightarrow> sql_error option) \<Rightarrow> 'a list \<Rightarrow> sql_error option" where
  "first_error f [] = None"
| "first_error f (x # xs) = (case f x of Some e \<Rightarrow> Some e | None \<Rightarrow> first_error f xs)"

subsection \<open>INSERT\<close>

text \<open>
  The statement is analysed first: its target columns exist and are named once, and
  every \<open>VALUES\<close> list has one expression per target column.
\<close>

definition check_targets :: "table \<Rightarrow> string list \<Rightarrow> expr list list \<Rightarrow> sql_error option" where
  "check_targets T cols rows =
     (case find (\<lambda>c. c \<notin> set (map col_name (table_columns T))) cols of
        Some c \<Rightarrow> Some (UndefinedColumn c)
      | None \<Rightarrow>
          (case find (\<lambda>c. 1 < count_list cols c) cols of
             Some c \<Rightarrow> Some (DuplicateColumn c)
           | None \<Rightarrow>
               if list_ex (\<lambda>vs. length vs \<noteq> length cols) rows then Some SyntaxError
               else None))"

text \<open>
  Each row is built (types first), checked against the not-null constraints and then
  against the unique indexes, and stored.
\<close>

definition insert_row ::
  "int \<Rightarrow> table \<Rightarrow> (string \<times> expr) list \<Rightarrow> database \<Rightarrow> sql_error option \<times> database" where
  "insert_row now T given db =
     (case build_row now (table_name T) given (table_columns T) db of
        (Inl e, db1) \<Rightarrow> (Some e, db1)
      | (Inr r, db1) \<Rightarrow>
          (case not_null_violation (table_columns T) r of
             Some e \<Rightarrow> (Some e, db1)
           | None \<Rightarrow>
               (case unique_violation (table_name T) (table_columns T)
                       (rows_of db1 (table_name T)) r of
                  Some e \<Rightarrow> (Some e, db1)
                | None \<Rightarrow>
                    (None,
                     db1\<lparr>rows_of := (rows_of db1)
                            (table_name T := rows_of db1 (table_name T) @ [r])\<rparr>))))"

fun insert_rows ::
  "int \<Rightarrow> table \<Rightarrow> string list \<Rightarrow> expr list list \<Rightarrow> database \<Rightarrow>
     sql_error option \<times> database" where
  "insert_rows now T cols [] db = (None, db)"
| "insert_rows now T cols (vs # rest) db =
     (case insert_row now T (zip cols vs) db of
        (Some e, db1) \<Rightarrow> (Some e, db1)
      | (None, db1) \<Rightarrow> insert_rows now T cols rest db1)"

text \<open>
  The foreign keys of the new rows are checked when all rows are stored. A statement
  that fails leaves no row behind; the sequence values it has drawn stay drawn.
\<close>

definition insert_into ::
  "table list \<Rightarrow> int \<Rightarrow> string \<Rightarrow> string list \<Rightarrow> expr list list \<Rightarrow> database \<Rightarrow>
     sql_error option \<times> database" where
  "insert_into S now t cols rows db =
     (case lookup_table S t of
        None \<Rightarrow> (Some (UndefinedTable t), db)
      | Some T \<Rightarrow>
          (case check_targets T cols rows of
             Some e \<Rightarrow> (Some e, db)
           | None \<Rightarrow>
               (case insert_rows now T cols rows db of
                  (Some e, db1) \<Rightarrow> (Some e, db\<lparr>sequences := sequences db1\<rparr>)
                | (None, db1) \<Rightarrow>
                    (case first_error (foreign_key_violation t (table_columns T) db1)
                            (drop (length (rows_of db t)) (rows_of db1 t)) of
                       Some e \<Rightarrow> (Some e, db\<lparr>sequences := sequences db1\<rparr>)
                     | None \<Rightarrow> (None, db1)))))"

subsection \<open>Statements and the script\<close>

datatype statement = INSERT_INTO string "string list" "expr list list"

text \<open>A statement runs at a time, which \<open>CURRENT_TIMESTAMP\<close> reads.\<close>

fun exec :: "table list \<Rightarrow> int \<times> statement \<Rightarrow> database \<Rightarrow> sql_error option \<times> database" where
  "exec S (now, INSERT_INTO t cols rows) db = insert_into S now t cols rows db"

definition run :: "table list \<Rightarrow> (int \<times> statement) list \<Rightarrow> database \<Rightarrow> database" where
  "run S script db = foldl (\<lambda>d st. snd (exec S st d)) db script"

definition john_smith_profile :: json where
  "john_smith_profile =
     JObject [(''avg_transaction'', JNumber (Dec 8550 2)),
              (''usual_merchants'', JArray [JString ''retail'', JString ''grocery''])]"

definition sarah_johnson_profile :: json where
  "sarah_johnson_profile =
     JObject [(''avg_transaction'', JNumber (Dec 12075 2)),
              (''usual_merchants'', JArray [JString ''online'', JString ''travel''])]"

definition sample_data :: statement where
  "sample_data =
     INSERT_INTO ''cardholders'' [''name'', ''card_number'', ''account_number'', ''behavior_profile'']
       [[Literal (TextValue ''John Smith''), Literal (TextValue ''4111111111111111''),
         Literal (TextValue ''ACC001''), Literal (JsonValue john_smith_profile)],
        [Literal (TextValue ''Sarah Johnson''), Literal (TextValue ''4222222222222222''),
         Literal (TextValue ''ACC002''), Literal (JsonValue sarah_johnson_profile)]]"

text \<open>The script: the four tables are created empty, then the sample data is inserted.\<close>

definition schema_script :: "int \<Rightarrow> sql_error option \<times> database" where
  "schema_script now = exec schema (now, sample_data) empty_database"

text \<open>
  The values of one column in the rows a condition selects:
  \<open>SELECT c FROM t WHERE ...\<close>.
\<close>

definition select_from :: "database \<Rightarrow> string \<Rightarrow> string \<Rightarrow> (row \<Rightarrow> bool) \<Rightarrow> sql_value list" where
  "select_from db t c cond = map (\<lambda>r. field r c) (filter cond (rows_of db t))"

subsection \<open>Notions the properties are stated with\<close>

text \<open>
  The row of an insert passes the column checks when every column gets a value of its
  type and no \<open>NOT NULL\<close> column is left null: what the engine checks before it
  looks at the unique indexes.
\<close>

definition passes_column_checks :: "int \<Rightarrow> table \<Rightarrow> (string \<times> expr) list \<Rightarrow> database \<Rightarrow> bool" where
  "passes_column_checks now T given db =
     (case build_row now (table_name T) given (table_columns T) db of
        (Inl e, d) \<Rightarrow> False
      | (Inr r, d) \<Rightarrow> not_null_violation (table_columns T) r = None)"

text \<open>
  A value of absolute value 100 or more: a number of that size, or an infinity.
\<close>

definition at_least_100 :: "sql_value \<Rightarrow> bool" where
  "at_least_100 v =
     (case v of
        NumericValue d \<Rightarrow> 100 \<le> \<bar>dec_value d\<bar>
      | IntegerValue i \<Rightarrow> 100 \<le> \<bar>i\<bar>
      | SpecialNumeric x \<Rightarrow> (case x of NaN \<Rightarrow> False | _ \<Rightarrow> True)
      | _ \<Rightarrow> False)"

text \<open>
  A stored score: a number with two fractional digits, strictly between -100 and 100.
\<close>

definition stored_score :: "sql_value \<Rightarrow> bool" where
  "stored_score v =
     (case v of
        NumericValue (Dec m s) \<Rightarrow> s = 2 \<and> \<bar>dec_value (Dec m s)\<bar> < 100
      | _ \<Rightarrow> False)"

definition score_columns :: "string list" where
  "score_columns = [''score_rf'', ''score_lr'', ''final_score'']"

definition scores_in_range :: "database \<Rightarrow> bool" where
  "scores_in_range db =
     list_all (\<lambda>r. list_all (\<lambda>c. stored_score (field r c)) score_columns)
       (rows_of db ''fraud_detection_logs'')"

text \<open>What the column type does guarantee: a stored score is such a number or \<open>NaN\<close>.\<close>

definition stored_score_or_nan :: "sql_value \<Rightarrow> bool" where
  "stored_score_or_nan v = (v = SpecialNumeric NaN \<or> stored_score v)"

definition scores_in_range_or_nan :: "database \<Rightarrow> bool" where
  "scores_in_range_or_nan db =
     list_all (\<lambda>r. list_all (\<lambda>c. stored_score_or_nan (field r c)) score_columns)
       (rows_of db ''fraud_detection_logs'')"

subsection \<open>A concrete database\<close>

text \<open>The state after the script and one transaction of the first cardholder.\<close>

definition example_transaction :: statement where
  "example_transaction =
     INSERT_INTO ''transactions''
       [''cardholder_id'', ''amount'', ''merchant_id'', ''location'', ''date_time'']
       [[Literal (IntegerValue 1), Literal (NumericValue (Dec 1999 2)),
         Literal (TextValue ''M-17''), Literal (TextValue ''Lyon''),
         Literal (TimestampValue 5)]]"

definition example_database :: database where
  "example_database = run schema [(0, sample_data), (1, example_transaction)] empty_database"

text \<open>Two log entries for that transaction; the second has no number for score_rf.\<close>

definition example_log :: statement where
  "example_log =
     INSERT_INTO ''fraud_detection_logs''
       [''transaction_id'', ''score_rf'', ''score_lr'', ''final_score'', ''decision'']
       [[Literal (IntegerValue 1), Literal (NumericValue (Dec 5 1)),
         Literal (NumericValue (Dec 12345 3)), Literal (IntegerValue 99),
         Literal (TextValue ''approve'')]]"

definition nan_log :: statement where
  "nan_log =
     INSERT_INTO ''fraud_detection_logs''
       [''transaction_id'', ''score_rf'', ''score_lr'', ''final_score'', ''decision'']
       [[Literal (IntegerValue 1), Literal (SpecialNumeric NaN),
         Literal (NumericValue (Dec 75 2)), Literal (NumericValue (Dec 75 2)),
         Literal (TextValue ''review'')]]"

section \<open>Properties of the wrapper module\<close>

lemma seq_console_alert:
  "seq (console_error m v) (alert a) w =
     (Normal, w\<lparr>console := console w @ [ConsoleError m v], alerts := alerts w @ [a]\<rparr>)"
  by (simp add: seq_def console_error_def alert_def)

lemma submit_handler_event: "fst (submit_handler P cb e w) = preventDefault e"
  by (simp add: submit_handler_def Let_def)

lemma submit_handler_normal: "fst (snd (submit_handler P cb e w)) = Normal"
  by (simp add: submit_handler_def Let_def try_catch_def seq_console_alert
      split: prod.splits completion.splits)

lemma invoke_event: "fst (invoke P l e w) = preventDefault e"
  by (cases l) (simp add: submit_handler_event)

lemma invoke_normal: "fst (snd (invoke P l e w)) = Normal"
  by (cases l) (simp add: submit_handler_normal)

lemma run_listeners_reports_nothing: "fst (snd (run_listeners P ls e w)) = []"
proof (induction ls arbitrary: e w)
  case Nil
  show ?case by simp
next
  case (Cons l ls)
  obtain e1 c w1 where i: "invoke P l e w = (e1, c, w1)"
    by (cases "invoke P l e w") auto
  have c: "c = Normal" using invoke_normal [of P l e w] i by simp
  obtain e2 r w2 where r: "run_listeners P ls e1 w1 = (e2, r, w2)"
    by (cases "run_listeners P ls e1 w1") auto
  have "r = []" using Cons.IH [of e1 w1] r by simp
  with i c r show ?case by simp
qed

lemma run_listeners_keeps_prevented:
  "cancelable e \<Longrightarrow> defaultPrevented e \<Longrightarrow>
     cancelable (fst (run_listeners P ls e w)) \<and> defaultPrevented (fst (run_listeners P ls e w))"
proof (induction ls arbitrary: e w)
  case Nil
  then show ?case by simp
next
  case (Cons l ls)
  obtain e1 c w1 where i: "invoke P l e w = (e1, c, w1)"
    by (cases "invoke P l e w") auto
  have e1: "e1 = preventDefault e" using invoke_event [of P l e w] i by simp
  have "cancelable e1 \<and> defaultPrevented e1"
    using Cons.prems by (simp add: e1 preventDefault_def)
  then have "cancelable (fst (run_listeners P ls e1 w1)) \<and>
      defaultPrevented (fst (run_listeners P ls e1 w1))"
    using Cons.IH [of e1 w1] by simp
  with i show ?case by (auto split: prod.splits)
qed

lemma run_listeners_prevents:
  "cancelable e \<Longrightarrow> ls \<noteq> [] \<Longrightarrow> defaultPrevented (fst (run_listeners P ls e w))"
proof (cases ls)
  case Nil
  assume "ls \<noteq> []"
  with Nil show ?thesis by simp
next
  case (Cons l ls')
  assume ce: "cancelable e"
  obtain e1 c w1 where i: "invoke P l e w = (e1, c, w1)"
    by (cases "invoke P l e w") auto
  have e1: "e1 = preventDefault e" using invoke_event [of P l e w] i by simp
  have "cancelable e1 \<and> defaultPrevented e1"
    using ce by (simp add: e1 preventDefault_def)
  then have "defaultPrevented (fst (run_listeners P ls' e1 w1))"
    using run_listeners_keeps_prevented [of e1 P ls' w1] by simp
  with i Cons show ?thesis by (auto split: prod.splits)
qed

lemma registered_dispatch_prevents:
  assumes "registered l formId w" and "ev_type e = ''submit''" and "cancelable e"
  shows "defaultPrevented (fst (dispatchEvent P formId e w))"
proof -
  from assms(1) obtain el where el: "getElementById w formId = Some el"
      and mem: "(''submit'', l) \<in> set (listeners el)"
    by (auto simp: registered_def split: option.splits)
  from mem have "l \<in> set (listeners_for ''submit'' el)"
    by (force simp: listeners_for_def)
  then have "listeners_for ''submit'' el \<noteq> []" by auto
  then show ?thesis
    using assms(2,3) el by (simp add: dispatchEvent_def run_listeners_prevents)
qed

lemma safeSubmit_registers:
  assumes "getElementById w formId = Some form"
  shows "registered (SubmitGuard (next_function w) callback) formId
           (snd (safeSubmit formId callback w))"
  using assms
  by (simp add: safeSubmit_def registered_def getElementById_def Let_def addEventListener_def)

text \<open>
  C1. Once \<open>safeSubmit\<close> has run on an existing form id, its listener is registered on
  the form, and every submit event dispatched on the form while that listener is
  registered ends with its default action prevented, whatever the callback does
  (return or throw: the platform \<open>P\<close> is arbitrary).
\<close>

theorem safeSubmit_prevents_default:
  assumes "getElementById w formId = Some form"
  shows "\<exists>l. registered l formId (snd (safeSubmit formId callback w)) \<and>
           (\<forall>w' e. registered l formId w' \<and> ev_type e = ''submit'' \<and> cancelable e \<longrightarrow>
              defaultPrevented (fst (dispatchEvent P formId e w')))"
  using safeSubmit_registers [OF assms] registered_dispatch_prevents by blast

theorem safeSubmit_prevents_default_witness:
  "getElementById example_browser ''loginForm'' = Some \<lparr>listeners = []\<rparr> \<and>
   (\<exists>l. registered l ''loginForm'' (snd (safeSubmit ''loginForm'' (FunctionRef 0) example_browser)) \<and>
      (\<forall>w' e. registered l ''loginForm'' w' \<and> ev_type e = ''submit'' \<and> cancelable e \<longrightarrow>
         defaultPrevented (fst (dispatchEvent example_platform ''loginForm'' e w'))))"
proof -
  have h: "getElementById example_browser ''loginForm'' = Some \<lparr>listeners = []\<rparr>"
    by (simp add: getElementById_def example_browser_def)
  show ?thesis
    using h safeSubmit_prevents_default [OF h, of "FunctionRef 0" example_platform] by simp
qed

text \<open>
  C2. When the callback throws, the listener completes normally: the thrown value is
  caught, one error entry is appended to the console and one alert is shown after
  whatever the callback did before throwing. No listener of a dispatch lets an
  exception escape, so none is reported to the event loop.
\<close>

theorem submit_handler_catches:
  assumes "call_value P callback w = (Throw err, w')"
  shows "submit_handler P callback e w =
           (preventDefault e, Normal,
            w'\<lparr>console := console w' @ [ConsoleError ''Form submission error:'' err],
               alerts := alerts w' @ [''Error submitting form. Please try again.'']\<rparr>)
         \<and> fst (snd (dispatchEvent P target e0 w0)) = []"
  using assms
  by (simp add: submit_handler_def Let_def try_catch_def seq_console_alert dispatchEvent_def
      run_listeners_reports_nothing split: option.splits)

theorem submit_handler_catches_witness:
  "call_value example_platform (FunctionRef 0) example_browser =
     (Throw (ErrorObject ''Error'' ''boom''), example_browser) \<and>
   submit_handler example_platform (FunctionRef 0) submit_event example_browser =
     (submit_event\<lparr>defaultPrevented := True\<rparr>, Normal,
      example_browser\<lparr>
        console := [ConsoleError ''Form submission error:'' (ErrorObject ''Error'' ''boom'')],
        alerts := [''Error submitting form. Please try again.'']\<rparr>) \<and>
   fst (snd (dispatchEvent example_platform ''loginForm'' submit_event
     (snd (safeSubmit ''loginForm'' (FunctionRef 0) example_browser)))) = []"
proof -
  have h: "call_value example_platform (FunctionRef 0) example_browser =
      (Throw (ErrorObject ''Error'' ''boom''), example_browser)"
    by (simp add: call_value_def example_platform_def)
  have c: "console example_browser = []" and a: "alerts example_browser = []"
    by (simp_all add: example_browser_def)
  have p: "preventDefault submit_event = submit_event\<lparr>defaultPrevented := True\<rparr>"
    by (simp add: preventDefault_def submit_event_def)
  show ?thesis
    using h submit_handler_catches [OF h, of submit_event "''loginForm''" submit_event
        "snd (safeSubmit ''loginForm'' (FunctionRef 0) example_browser)"]
    by (simp add: c a p)
qed

text \<open>
  C3. \<open>navigateTo\<close> always completes normally. When the browser accepts the
  assignment, the location is \<open>url\<close> and nothing else changes; when the assignment
  throws, the location is unchanged, exactly one error entry is appended to the console
  and exactly one alert is shown.
\<close>

theorem navigateTo_outcome:
  "navigateTo P url w =
     (Normal,
      case href_failure P url w of
        None \<Rightarrow> w\<lparr>location_href := url\<rparr>
      | Some error \<Rightarrow>
          w\<lparr>console := console w @ [ConsoleError ''Navigation error:'' error],
            alerts := alerts w @ [''Navigation error. Please refresh the page.'']\<rparr>)"
  by (simp add: navigateTo_def try_catch_def assign_location_href_def seq_console_alert
      split: option.splits)

text \<open>
  C4. When no element has the id, \<open>safeSubmit\<close> completes normally and returns the
  browser state it was given: no listener, no console entry, no alert, no allocation.
\<close>

theorem safeSubmit_missing_form:
  assumes "getElementById w formId = None"
  shows "safeSubmit formId callback w = (Normal, w)"
  using assms by (simp add: safeSubmit_def)

theorem safeSubmit_missing_form_witness:
  "getElementById example_browser ''signupForm'' = None \<and>
   safeSubmit ''signupForm'' (FunctionRef 1) example_browser = (Normal, example_browser)"
proof -
  have h: "getElementById example_browser ''signupForm'' = None"
    by (simp add: getElementById_def example_browser_def)
  show ?thesis using h safeSubmit_missing_form [OF h, of "FunctionRef 1"] by simp
qed



section \<open>Properties of the schema\<close>

subsection \<open>The engine\<close>

lemmas column_defs = col_def NOT_NULL_def PRIMARY_KEY_def UNIQUE_def DEFAULT_def REFERENCES_def

lemmas table_defs = cardholders_def transactions_def fraud_detection_logs_def case_management_def

lemmas engine_defs =
  insert_into_def lookup_table_def schema_def table_defs column_defs check_targets_def
  insert_row_def column_value_def default_value_def empty_database_def seq_name_def
  to_integer_def to_varchar_def to_numeric_def special_to_numeric_def round_to_scale_def
  not_null_violation_def unique_violation_def is_not_null_def is_unique_def field_def
  foreign_key_violation_def dangling_def unique_name_def fkey_name_def
  jsonb_object_def jsonb_key_less_def

lemma lookup_table_name: "lookup_table S t = Some T \<Longrightarrow> table_name T = t"
  by (auto simp: lookup_table_def dest: find_Some_iff [THEN iffD1])

lemma cardholders_lookup: "lookup_table schema ''cardholders'' = Some cardholders"
  by (simp add: lookup_table_def schema_def table_defs)

lemma transactions_lookup: "lookup_table schema ''transactions'' = Some transactions"
  by (simp add: lookup_table_def schema_def table_defs)

lemma case_management_lookup: "lookup_table schema ''case_management'' = Some case_management"
  by (simp add: lookup_table_def schema_def table_defs)

lemma fraud_detection_logs_lookup:
  "lookup_table schema ''fraud_detection_logs'' = Some fraud_detection_logs"
  by (simp add: lookup_table_def schema_def table_defs)

lemma cardholders_names:
  "table_name cardholders = ''cardholders''"
  "distinct (map col_name (table_columns cardholders))"
  "UNIQUE (NOT_NULL (col ''card_number'' (VARCHAR 16))) \<in> set (table_columns cardholders)"
  by (simp_all add: cardholders_def column_defs)

lemma transactions_names:
  "table_name transactions = ''transactions''"
  "distinct (map col_name (table_columns transactions))"
  "REFERENCES ''cardholders'' ''cardholder_id'' (NOT_NULL (col ''cardholder_id'' INTEGER))
     \<in> set (table_columns transactions)"
  by (simp_all add: transactions_def column_defs)

lemma case_management_names:
  "distinct (map col_name (table_columns case_management))"
  "DEFAULT (Constant (TextValue ''Pending'')) (col ''status'' (VARCHAR 20))
     \<in> set (table_columns case_management)"
  by (simp_all add: case_management_def column_defs)

lemma fraud_detection_logs_names:
  "table_name fraud_detection_logs = ''fraud_detection_logs''"
  "distinct (map col_name (table_columns fraud_detection_logs))"
  by (simp_all add: fraud_detection_logs_def column_defs)

lemma default_value_rows: "rows_of (snd (default_value now t c db)) = rows_of db"
  by (simp add: default_value_def Let_def split: option.splits default_expr.splits)

lemma column_value_rows: "rows_of (snd (column_value now t given c db)) = rows_of db"
  by (simp add: column_value_def default_value_rows split: option.splits expr.splits)

lemma build_row_rows: "rows_of (snd (build_row now t given cs db)) = rows_of db"
proof (induction cs arbitrary: db)
  case Nil
  show ?case by simp
next
  case (Cons c cs)
  obtain x db1 where cv: "column_value now t given c db = (x, db1)"
    by (cases "column_value now t given c db") auto
  have r1: "rows_of db1 = rows_of db"
    using column_value_rows [of now t given c db] cv by simp
  show ?case
  proof (cases x)
    case (Inl e)
    with cv r1 show ?thesis by simp
  next
    case (Inr v)
    obtain y db2 where br: "build_row now t given cs db1 = (y, db2)"
      by (cases "build_row now t given cs db1") auto
    have "rows_of db2 = rows_of db1"
      using Cons.IH [of db1] br by simp
    with cv Inr br r1 show ?thesis by (cases y) simp_all
  qed
qed

text \<open>A built row holds, for each column, the value computed for that column.\<close>

lemma build_row_field:
  assumes "build_row now t given cs db = (Inr r, db')"
      and "distinct (map col_name cs)" and "c \<in> set cs"
  shows "\<exists>d d'. column_value now t given c d = (Inr (field r (col_name c)), d')"
  using assms
proof (induction cs arbitrary: db r db')
  case Nil
  then show ?case by simp
next
  case (Cons a cs)
  obtain x db1 where cv: "column_value now t given a db = (x, db1)"
    by (cases "column_value now t given a db") auto
  from Cons.prems(1) cv obtain v where x: "x = Inr v"
    by (cases x) auto
  obtain y db2 where br: "build_row now t given cs db1 = (y, db2)"
    by (cases "build_row now t given cs db1") auto
  from Cons.prems(1) cv x br obtain r' where y: "y = Inr r'" and r: "r = (col_name a, v) # r'"
    by (cases y) auto
  show ?case
  proof (cases "c = a")
    case True
    have "field r (col_name c) = v" using r True by (simp add: field_def)
    with cv x True show ?thesis by blast
  next
    case False
    with Cons.prems(3) have cin: "c \<in> set cs" by simp
    have ne: "col_name c \<noteq> col_name a"
    proof
      assume "col_name c = col_name a"
      then have "col_name a \<in> col_name ` set cs" using cin by (metis imageI)
      with Cons.prems(2) show False by simp
    qed
    have "\<exists>d d'. column_value now t given c d = (Inr (field r' (col_name c)), d')"
      using Cons.IH [of db1 r' db2] br y Cons.prems(2) cin by simp
    moreover have "field r (col_name c) = field r' (col_name c)"
      using r ne by (simp add: field_def)
    ultimately show ?thesis by simp
  qed
qed

lemma build_row_literal:
  assumes "build_row now t given cs db = (Inr r, db')"
      and "distinct (map col_name cs)" and "c \<in> set cs"
      and "map_of given (col_name c) = Some (Literal v)"
  shows "coerce (col_name c) (col_type c) v = Inr (field r (col_name c))"
proof -
  from build_row_field [OF assms(1-3)] obtain d d'
    where "column_value now t given c d = (Inr (field r (col_name c)), d')" by blast
  with assms(4) show ?thesis by (simp add: column_value_def)
qed

lemma build_row_fails:
  assumes "c \<in> set cs" and "\<And>d. \<exists>e. fst (column_value now t given c d) = Inl e"
  shows "\<exists>e. fst (build_row now t given cs db) = Inl e"
  using assms(1)
proof (induction cs arbitrary: db)
  case Nil
  then show ?case by simp
next
  case (Cons a cs)
  obtain x db1 where cv: "column_value now t given a db = (x, db1)"
    by (cases "column_value now t given a db") auto
  show ?case
  proof (cases x)
    case (Inl e)
    with cv show ?thesis by simp
  next
    case (Inr v)
    have "c \<noteq> a"
    proof
      assume "c = a"
      with assms(2) [of db] cv Inr show False by simp
    qed
    with Cons.prems have "c \<in> set cs" by simp
    then obtain e where "fst (build_row now t given cs db1) = Inl e"
      using Cons.IH [of db1] by blast
    with cv Inr show ?thesis
      by (cases "build_row now t given cs db1") (auto split: sum.splits)
  qed
qed

lemma find_exists: "x \<in> set xs \<Longrightarrow> P x \<Longrightarrow> find P xs \<noteq> None"
  by (auto simp: find_None_iff)

lemma unique_violation_kind:
  "unique_violation t cs rs r = Some e \<Longrightarrow> \<exists>c. e = UniqueViolation c"
  by (auto simp: unique_violation_def split: option.splits)

lemma not_null_field:
  assumes "not_null_violation cs r = None" and "c \<in> set cs" and "is_not_null c"
  shows "field r (col_name c) \<noteq> Null"
  using assms by (auto simp: not_null_violation_def find_None_iff split: option.splits)

lemma insert_row_rows_error:
  "fst (insert_row now T given db) \<noteq> None \<Longrightarrow>
     rows_of (snd (insert_row now T given db)) = rows_of db"
  using build_row_rows [of now "table_name T" given "table_columns T" db]
  by (auto simp: insert_row_def split: prod.splits sum.splits option.splits)

lemma insert_into_rows_error:
  "fst (insert_into S now t cols vss db) \<noteq> None \<Longrightarrow>
     rows_of (snd (insert_into S now t cols vss db)) = rows_of db"
  by (auto simp: insert_into_def split: prod.splits option.splits)

text \<open>What a successful insert stores.\<close>

lemma insert_row_success:
  assumes "insert_row now T given db = (None, db1)"
  shows "\<exists>r d. build_row now (table_name T) given (table_columns T) db = (Inr r, d) \<and>
           not_null_violation (table_columns T) r = None \<and>
           unique_violation (table_name T) (table_columns T) (rows_of db (table_name T)) r = None \<and>
           rows_of db1 = (rows_of db)(table_name T := rows_of db (table_name T) @ [r])"
proof -
  obtain x d where br: "build_row now (table_name T) given (table_columns T) db = (x, d)"
    by (cases "build_row now (table_name T) given (table_columns T) db") auto
  have rd: "rows_of d = rows_of db"
    using build_row_rows [of now "table_name T" given "table_columns T" db] br by simp
  from assms br obtain r where x: "x = Inr r"
    by (cases x) (auto simp: insert_row_def)
  from assms br x rd show ?thesis
    by (auto simp: insert_row_def split: option.splits)
qed

lemma insert_rows_success:
  assumes "insert_rows now T cols vss db = (None, db1)"
  shows "\<exists>news. rows_of db1 = (rows_of db)(table_name T := rows_of db (table_name T) @ news) \<and>
           list_all2 (\<lambda>vs r. \<exists>d d'. build_row now (table_name T) (zip cols vs) (table_columns T) d = (Inr r, d') \<and>
              not_null_violation (table_columns T) r = None) vss news"
  using assms
proof (induction vss arbitrary: db)
  case Nil
  then show ?case by auto
next
  case (Cons vs vss)
  obtain x d1 where ir: "insert_row now T (zip cols vs) db = (x, d1)"
    by (cases "insert_row now T (zip cols vs) db") auto
  from Cons.prems ir have x: "x = None" by (cases x) auto
  from insert_row_success [of now T "zip cols vs" db d1] ir x
  obtain r d where br: "build_row now (table_name T) (zip cols vs) (table_columns T) db = (Inr r, d)"
    and nn: "not_null_violation (table_columns T) r = None"
    and r1: "rows_of d1 = (rows_of db)(table_name T := rows_of db (table_name T) @ [r])"
    by blast
  from Cons.prems ir x have rest: "insert_rows now T cols vss d1 = (None, db1)" by simp
  from Cons.IH [OF rest] obtain news where
    n1: "rows_of db1 = (rows_of d1)(table_name T := rows_of d1 (table_name T) @ news)" and
    n2: "list_all2 (\<lambda>vs r. \<exists>d d'. build_row now (table_name T) (zip cols vs) (table_columns T) d = (Inr r, d') \<and>
              not_null_violation (table_columns T) r = None) vss news"
    by blast
  have "rows_of db1 = (rows_of db)(table_name T := rows_of db (table_name T) @ (r # news))"
    using n1 r1 by simp
  moreover have "list_all2 (\<lambda>vs r. \<exists>d d'. build_row now (table_name T) (zip cols vs) (table_columns T) d = (Inr r, d') \<and>
              not_null_violation (table_columns T) r = None) (vs # vss) (r # news)"
    using n2 br nn by auto
  ultimately show ?case by blast
qed

lemma insert_rows_fails:
  assumes "vs \<in> set vss" and "\<And>d. fst (insert_row now T (zip cols vs) d) \<noteq> None"
  shows "fst (insert_rows now T cols vss db) \<noteq> None"
  using assms(1)
proof (induction vss arbitrary: db)
  case Nil
  then show ?case by simp
next
  case (Cons a vss)
  obtain x d1 where ir: "insert_row now T (zip cols a) db = (x, d1)"
    by (cases "insert_row now T (zip cols a) db") auto
  show ?case
  proof (cases x)
    case (Some e)
    with ir show ?thesis by simp
  next
    case None
    have "vs \<noteq> a"
    proof
      assume "vs = a"
      with assms(2) [of db] ir None show False by simp
    qed
    with Cons.prems have "vs \<in> set vss" by simp
    then have "fst (insert_rows now T cols vss d1) \<noteq> None"
      using Cons.IH [of d1] by blast
    with ir None show ?thesis by simp
  qed
qed

lemma list_all2_right:
  "list_all2 P xs ys \<Longrightarrow> (\<And>x y. P x y \<Longrightarrow> Q y) \<Longrightarrow> list_all Q ys"
  by (induction rule: list_all2_induct) auto

lemma insert_into_success:
  assumes "insert_into S now t cols vss db = (None, db')"
  shows "\<exists>T news. lookup_table S t = Some T \<and>
           rows_of db' = (rows_of db)(t := rows_of db t @ news) \<and>
           list_all2 (\<lambda>vs r. \<exists>d d'. build_row now t (zip cols vs) (table_columns T) d = (Inr r, d') \<and>
              not_null_violation (table_columns T) r = None) vss news"
proof -
  from assms obtain T where T: "lookup_table S t = Some T"
    by (auto simp: insert_into_def split: option.splits)
  have tn: "table_name T = t" using lookup_table_name [OF T] .
  from assms T have rs: "insert_rows now T cols vss db = (None, db')"
    by (auto simp: insert_into_def split: option.splits prod.splits)
  from insert_rows_success [OF rs] T tn show ?thesis by auto
qed

lemma map_of_zip_absent: "c \<notin> set cols \<Longrightarrow> map_of (zip cols vs) c = None"
  by (auto simp: map_of_eq_None_iff dest: set_zip_leftD)

subsection \<open>Assignment to DECIMAL(4,2)\<close>

lemma dec_value_large:
  assumes "100 \<le> \<bar>dec_value (Dec m k)\<bar>"
  shows "100 * 10 ^ k \<le> \<bar>m\<bar>"
proof -
  have "\<bar>dec_value (Dec m k)\<bar> = of_int \<bar>m\<bar> / 10 ^ k"
    by (simp add: dec_value_def abs_divide)
  with assms have "(100::rat) * 10 ^ k \<le> of_int \<bar>m\<bar>"
    by (simp add: pos_le_divide_eq)
  then have "(of_int (100 * 10 ^ k) :: rat) \<le> of_int \<bar>m\<bar>" by simp
  then show ?thesis by (simp only: of_int_le_iff)
qed

lemma round_to_scale_large:
  assumes "100 * 10 ^ k \<le> \<bar>m\<bar>"
  shows "10 ^ 4 \<le> \<bar>round_to_scale 2 (Dec m k)\<bar>"
proof (cases "k \<le> 2")
  case True
  then obtain j where j: "2 = k + j" using le_Suc_ex by blast
  have "(10::int) ^ k * 10 ^ j = 10 ^ (k + j)" by (simp add: power_add)
  also have "\<dots> = 10 ^ 2" by (simp only: j [symmetric])
  finally have h: "(10::int) ^ k * 10 ^ j = 100" by simp
  have "\<bar>m\<bar> * 10 ^ j \<ge> (100 * 10 ^ k) * 10 ^ j"
    using assms by (simp add: mult_right_mono)
  then have "\<bar>m\<bar> * 10 ^ j \<ge> 100 * 100"
    using h by (simp add: mult.assoc)
  moreover have "2 - k = j" using j by simp
  ultimately show ?thesis
    using True by (simp add: round_to_scale_def abs_mult)
next
  case False
  then obtain j where j: "k = 2 + j" using le_Suc_ex [of 2 k] by auto
  let ?d = "(10::int) ^ j"
  have dpos: "0 < ?d" by simp
  have "(10::int) ^ k = 100 * ?d" using j by (simp add: power_add)
  with assms have big: "10 ^ 4 * ?d \<le> \<bar>m\<bar>" by simp
  have "0 \<le> ?d div 2"
    using dpos by (simp add: pos_imp_zdiv_nonneg_iff)
  with big have "10 ^ 4 * ?d \<le> \<bar>m\<bar> + ?d div 2" by linarith
  then have "(10 ^ 4 * ?d) div ?d \<le> (\<bar>m\<bar> + ?d div 2) div ?d"
    using dpos zdiv_mono1 by blast
  then have q: "10 ^ 4 \<le> (\<bar>m\<bar> + ?d div 2) div ?d" by simp
  have "m \<noteq> 0"
  proof
    assume "m = 0"
    with big have "10 ^ 4 * ?d \<le> 0" by simp
    moreover have "0 < 10 ^ 4 * ?d" by simp
    ultimately show False by linarith
  qed
  then have "\<bar>sgn m\<bar> = 1" by (simp add: abs_sgn_eq)
  then have "\<bar>round_to_scale 2 (Dec m k)\<bar> = \<bar>(\<bar>m\<bar> + ?d div 2) div ?d\<bar>"
    using False j by (simp add: round_to_scale_def abs_mult)
  with q show ?thesis by simp
qed

lemma score_overflows:
  assumes "at_least_100 v"
  shows "coerce n (DECIMAL 4 2) v = Inl (NumericValueOutOfRange n)"
proof (cases v)
  case (NumericValue d)
  obtain m k where d: "d = Dec m k" by (cases d)
  from assms NumericValue d have "100 \<le> \<bar>dec_value (Dec m k)\<bar>"
    by (simp add: at_least_100_def)
  then have "10 ^ 4 \<le> \<bar>round_to_scale 2 (Dec m k)\<bar>"
    using dec_value_large round_to_scale_large by blast
  with NumericValue d show ?thesis
    by (simp add: to_numeric_def Let_def)
next
  case (IntegerValue i)
  from assms IntegerValue have "100 \<le> \<bar>i\<bar>"
    by (simp add: at_least_100_def)
  then have "(100::rat) \<le> of_int \<bar>i\<bar>"
    by (metis of_int_le_iff of_int_numeral)
  then have "100 \<le> \<bar>dec_value (Dec i 0)\<bar>"
    by (simp add: dec_value_def)
  then have "10 ^ 4 \<le> \<bar>round_to_scale 2 (Dec i 0)\<bar>"
    using dec_value_large round_to_scale_large by blast
  with IntegerValue show ?thesis
    by (simp add: to_numeric_def Let_def)
next
  case (SpecialNumeric x)
  with assms show ?thesis
    by (cases x) (simp_all add: at_least_100_def special_to_numeric_def)
qed (use assms in \<open>simp_all add: at_least_100_def\<close>)

lemma score_stored:
  assumes "coerce n (DECIMAL 4 2) v = Inr u" and "u \<noteq> Null"
  shows "stored_score_or_nan u"
proof -
  have bound: "\<And>m::int. \<bar>m\<bar> < 10 ^ 4 \<Longrightarrow> \<bar>dec_value (Dec m 2)\<bar> < 100"
  proof -
    fix m :: int
    assume "\<bar>m\<bar> < 10 ^ 4"
    then have "(of_int \<bar>m\<bar> :: rat) < of_int (10 ^ 4)" by (simp only: of_int_less_iff)
    then have "(of_int \<bar>m\<bar> :: rat) / 10 ^ 2 < 100" by simp
    then show "\<bar>dec_value (Dec m 2)\<bar> < 100"
      by (simp add: dec_value_def abs_divide)
  qed
  show ?thesis
  proof (cases v)
    case (NumericValue d)
    with assms(1) bound show ?thesis
      by (auto simp: to_numeric_def Let_def stored_score_def stored_score_or_nan_def
          split: if_splits)
  next
    case (IntegerValue i)
    with assms(1) bound show ?thesis
      by (auto simp: to_numeric_def Let_def stored_score_def stored_score_or_nan_def
          split: if_splits)
  next
    case (SpecialNumeric x)
    with assms(1) show ?thesis
      by (cases x) (auto simp: special_to_numeric_def stored_score_or_nan_def)
  qed (use assms in auto)
qed

lemma score_column:
  assumes "c \<in> set score_columns"
  shows "NOT_NULL (col c (DECIMAL 4 2)) \<in> set (table_columns fraud_detection_logs)"
  using assms by (auto simp: score_columns_def fraud_detection_logs_def)

lemma built_scores:
  assumes br: "build_row now ''fraud_detection_logs'' given (table_columns fraud_detection_logs) d = (Inr r, d')"
      and nn: "not_null_violation (table_columns fraud_detection_logs) r = None"
      and c: "c \<in> set score_columns"
  shows "stored_score_or_nan (field r c)"
proof -
  let ?c = "NOT_NULL (col c (DECIMAL 4 2))"
  have cin: "?c \<in> set (table_columns fraud_detection_logs)" using score_column [OF c] .
  have cn: "col_name ?c = c" and ct: "col_type ?c = DECIMAL 4 2" and cd: "col_default ?c = None"
    and inn: "is_not_null ?c"
    by (simp_all add: column_defs is_not_null_def)
  have nonnull: "field r c \<noteq> Null"
    using not_null_field [OF nn cin inn] by (simp add: cn)
  from build_row_field [OF br fraud_detection_logs_names(2) cin] obtain e e' where
    cv: "column_value now ''fraud_detection_logs'' given ?c e = (Inr (field r c), e')"
    by (auto simp: cn)
  then have "\<exists>v. coerce c (DECIMAL 4 2) v = Inr (field r c)"
    using nonnull
    by (auto simp: column_value_def default_value_def cn ct cd
        split: option.splits expr.splits)
  then show ?thesis using score_stored nonnull by blast
qed

lemma insert_into_keeps_scores:
  assumes "scores_in_range_or_nan db"
  shows "scores_in_range_or_nan (snd (insert_into schema now t cols vss db))"
proof (cases "fst (insert_into schema now t cols vss db)")
  case (Some e)
  then have "rows_of (snd (insert_into schema now t cols vss db)) = rows_of db"
    using insert_into_rows_error by simp
  with assms show ?thesis by (simp add: scores_in_range_or_nan_def)
next
  case None
  then have "insert_into schema now t cols vss db =
      (None, snd (insert_into schema now t cols vss db))"
    by (cases "insert_into schema now t cols vss db") simp
  from insert_into_success [OF this] obtain T news where
    T: "lookup_table schema t = Some T" and
    rows: "rows_of (snd (insert_into schema now t cols vss db)) =
      (rows_of db)(t := rows_of db t @ news)" and
    built: "list_all2 (\<lambda>vs r. \<exists>d d'. build_row now t (zip cols vs) (table_columns T) d = (Inr r, d') \<and>
        not_null_violation (table_columns T) r = None) vss news"
    by blast
  show ?thesis
  proof (cases "t = ''fraud_detection_logs''")
    case False
    with rows assms show ?thesis by (simp add: scores_in_range_or_nan_def)
  next
    case True
    with T have TT: "T = fraud_detection_logs"
      by (simp add: fraud_detection_logs_lookup)
    have one: "\<And>vs r. \<exists>d d'. build_row now t (zip cols vs) (table_columns T) d = (Inr r, d') \<and>
        not_null_violation (table_columns T) r = None \<Longrightarrow>
        list_all (\<lambda>c. stored_score_or_nan (field r c)) score_columns"
      using built_scores unfolding True TT list_all_iff by blast
    have "list_all (\<lambda>r. list_all (\<lambda>c. stored_score_or_nan (field r c)) score_columns) news"
      using list_all2_right [OF built one] .
    with rows assms True show ?thesis by (simp add: scores_in_range_or_nan_def)
  qed
qed

lemma run_keeps_scores:
  "scores_in_range_or_nan db \<Longrightarrow> scores_in_range_or_nan (run schema script db)"
proof (induction script arbitrary: db)
  case Nil
  then show ?case by (simp add: run_def)
next
  case (Cons st script)
  obtain now t cols vss where st: "st = (now, INSERT_INTO t cols vss)"
    by (cases st, rename_tac a b, case_tac b) auto
  have "scores_in_range_or_nan (snd (exec schema st db))"
    using insert_into_keeps_scores [OF Cons.prems] st by simp
  from Cons.IH [OF this] show ?case by (simp add: run_def)
qed

lemma score_insert_row_fails:
  assumes "c \<in> set score_columns" and "map_of given c = Some (Literal v)"
      and "at_least_100 v"
  shows "fst (insert_row now fraud_detection_logs given d) \<noteq> None"
proof -
  let ?c = "NOT_NULL (col c (DECIMAL 4 2))"
  have cn: "col_name ?c = c" and ct: "col_type ?c = DECIMAL 4 2"
    by (simp_all add: column_defs)
  have "\<And>d. \<exists>e. fst (column_value now ''fraud_detection_logs'' given ?c d) = Inl e"
    using assms(2) score_overflows [OF assms(3)]
    by (simp add: column_value_def cn ct)
  from build_row_fails [OF score_column [OF assms(1)] this]
  obtain e where "fst (build_row now ''fraud_detection_logs'' given
      (table_columns fraud_detection_logs) d) = Inl e" by blast
  then show ?thesis
    by (cases "build_row now ''fraud_detection_logs'' given (table_columns fraud_detection_logs) d")
      (simp add: insert_row_def fraud_detection_logs_names(1))
qed

subsection \<open>The script and the concrete database\<close>

lemma schema_script_result:
  "schema_script now =
    (None, \<lparr>rows_of = (\<lambda>t. [])(''cardholders'' :=
        [[(''cardholder_id'', IntegerValue 1), (''name'', TextValue ''John Smith''),
          (''card_number'', TextValue ''4111111111111111''),
          (''account_number'', TextValue ''ACC001''),
          (''behavior_profile'', JsonValue john_smith_profile),
          (''created_at'', TimestampValue now), (''updated_at'', TimestampValue now)],
         [(''cardholder_id'', IntegerValue 2), (''name'', TextValue ''Sarah Johnson''),
          (''card_number'', TextValue ''4222222222222222''),
          (''account_number'', TextValue ''ACC002''),
          (''behavior_profile'', JsonValue sarah_johnson_profile),
          (''created_at'', TimestampValue now), (''updated_at'', TimestampValue now)]]),
      sequences = (\<lambda>s. 1)(''cardholders_cardholder_id_seq'' := 3)\<rparr>)"
  by (simp add: schema_script_def sample_data_def engine_defs
      john_smith_profile_def sarah_johnson_profile_def)

lemma example_database_rows:
  "rows_of example_database ''cardholders'' =
     [[(''cardholder_id'', IntegerValue 1), (''name'', TextValue ''John Smith''),
       (''card_number'', TextValue ''4111111111111111''),
       (''account_number'', TextValue ''ACC001''),
       (''behavior_profile'', JsonValue john_smith_profile),
       (''created_at'', TimestampValue 0), (''updated_at'', TimestampValue 0)],
      [(''cardholder_id'', IntegerValue 2), (''name'', TextValue ''Sarah Johnson''),
       (''card_number'', TextValue ''4222222222222222''),
       (''account_number'', TextValue ''ACC002''),
       (''behavior_profile'', JsonValue sarah_johnson_profile),
       (''created_at'', TimestampValue 0), (''updated_at'', TimestampValue 0)]]"
  "rows_of example_database ''transactions'' =
     [[(''transaction_id'', IntegerValue 1), (''cardholder_id'', IntegerValue 1),
       (''amount'', NumericValue (Dec 1999 2)), (''merchant_id'', TextValue ''M-17''),
       (''location'', TextValue ''Lyon''), (''date_time'', TimestampValue 5),
       (''created_at'', TimestampValue 1)]]"
  "rows_of example_database ''fraud_detection_logs'' = []"
  "rows_of example_database ''case_management'' = []"
  "sequences example_database = (\<lambda>s. 1)(''cardholders_cardholder_id_seq'' := 3,
       ''transactions_transaction_id_seq'' := 2)"
proof -
  have "example_database =
      snd (exec schema (1, example_transaction) (snd (schema_script 0)))"
    by (simp add: example_database_def run_def schema_script_def)
  then have eq: "example_database =
    \<lparr>rows_of = (\<lambda>t. [])(''cardholders'' :=
        [[(''cardholder_id'', IntegerValue 1), (''name'', TextValue ''John Smith''),
          (''card_number'', TextValue ''4111111111111111''),
          (''account_number'', TextValue ''ACC001''),
          (''behavior_profile'', JsonValue john_smith_profile),
          (''created_at'', TimestampValue 0), (''updated_at'', TimestampValue 0)],
         [(''cardholder_id'', IntegerValue 2), (''name'', TextValue ''Sarah Johnson''),
          (''card_number'', TextValue ''4222222222222222''),
          (''account_number'', TextValue ''ACC002''),
          (''behavior_profile'', JsonValue sarah_johnson_profile),
          (''created_at'', TimestampValue 0), (''updated_at'', TimestampValue 0)]],
        ''transactions'' :=
        [[(''transaction_id'', IntegerValue 1), (''cardholder_id'', IntegerValue 1),
          (''amount'', NumericValue (Dec 1999 2)), (''merchant_id'', TextValue ''M-17''),
          (''location'', TextValue ''Lyon''), (''date_time'', TimestampValue 5),
          (''created_at'', TimestampValue 1)]]),
      sequences = (\<lambda>s. 1)(''cardholders_cardholder_id_seq'' := 3,
        ''transactions_transaction_id_seq'' := 2)\<rparr>"
    by (simp add: schema_script_result example_transaction_def engine_defs)
  show
    "rows_of example_database ''cardholders'' =
     [[(''cardholder_id'', IntegerValue 1), (''name'', TextValue ''John Smith''),
       (''card_number'', TextValue ''4111111111111111''),
       (''account_number'', TextValue ''ACC001''),
       (''behavior_profile'', JsonValue john_smith_profile),
       (''created_at'', TimestampValue 0), (''updated_at'', TimestampValue 0)],
      [(''cardholder_id'', IntegerValue 2), (''name'', TextValue ''Sarah Johnson''),
       (''card_number'', TextValue ''4222222222222222''),
       (''account_number'', TextValue ''ACC002''),
       (''behavior_profile'', JsonValue sarah_johnson_profile),
       (''created_at'', TimestampValue 0), (''updated_at'', TimestampValue 0)]]"
    "rows_of example_database ''transactions'' =
     [[(''transaction_id'', IntegerValue 1), (''cardholder_id'', IntegerValue 1),
       (''amount'', NumericValue (Dec 1999 2)), (''merchant_id'', TextValue ''M-17''),
       (''location'', TextValue ''Lyon''), (''date_time'', TimestampValue 5),
       (''created_at'', TimestampValue 1)]]"
    "rows_of example_database ''fraud_detection_logs'' = []"
    "rows_of example_database ''case_management'' = []"
    "sequences example_database = (\<lambda>s. 1)(''cardholders_cardholder_id_seq'' := 3,
       ''transactions_transaction_id_seq'' := 2)"
    by (simp_all add: eq)
qed

lemmas run_defs = engine_defs example_database_rows

subsection \<open>The claims on the schema\<close>

lemma duplicate_card_number_row:
  assumes given: "map_of given ''card_number'' = Some (Literal v)"
      and stored: "coerce ''card_number'' (VARCHAR 16) v = Inr (TextValue n)"
      and existing: "list_ex (\<lambda>r. field r ''card_number'' = TextValue n) (rows_of db ''cardholders'')"
  shows "\<exists>e. fst (insert_row now cardholders given db) = Some e \<and>
           (passes_column_checks now cardholders given db \<longrightarrow> (\<exists>c. e = UniqueViolation c))"
proof -
  let ?c = "UNIQUE (NOT_NULL (col ''card_number'' (VARCHAR 16)))"
  have cn: "col_name ?c = ''card_number''" and ct: "col_type ?c = VARCHAR 16"
    and cu: "is_unique ?c"
    by (simp_all add: column_defs is_unique_def)
  obtain x d where br: "build_row now ''cardholders'' given (table_columns cardholders) db = (x, d)"
    by (cases "build_row now ''cardholders'' given (table_columns cardholders) db") auto
  have rd: "rows_of d = rows_of db"
    using build_row_rows [of now "''cardholders''" given "table_columns cardholders" db] br by simp
  show ?thesis
  proof (cases x)
    case (Inl e)
    with br show ?thesis
      by (simp add: insert_row_def passes_column_checks_def cardholders_names)
  next
    case (Inr r)
    have "coerce (col_name ?c) (col_type ?c) v = Inr (field r (col_name ?c))"
      using build_row_literal [of now "''cardholders''" given "table_columns cardholders" db r d ?c v]
        br Inr cardholders_names given cn by simp
    with stored have f: "field r ''card_number'' = TextValue n"
      by (simp add: cn ct)
    have "find (\<lambda>c. is_unique c \<and> field r (col_name c) \<noteq> Null \<and>
        list_ex (\<lambda>r'. field r' (col_name c) = field r (col_name c)) (rows_of db ''cardholders''))
        (table_columns cardholders) \<noteq> None"
      using find_exists [of ?c "table_columns cardholders"
          "\<lambda>c. is_unique c \<and> field r (col_name c) \<noteq> Null \<and>
            list_ex (\<lambda>r'. field r' (col_name c) = field r (col_name c)) (rows_of db ''cardholders'')"]
        cardholders_names(3) cu f existing by (simp add: cn)
    then obtain e where uv: "unique_violation ''cardholders'' (table_columns cardholders)
        (rows_of db ''cardholders'') r = Some e"
      by (auto simp: unique_violation_def split: option.splits)
    then obtain c where e: "e = UniqueViolation c"
      using unique_violation_kind by blast
    show ?thesis
    proof (cases "not_null_violation (table_columns cardholders) r")
      case None
      with br Inr uv e rd show ?thesis
        by (simp add: insert_row_def cardholders_names(1))
    next
      case (Some e')
      with br Inr show ?thesis
        by (simp add: insert_row_def passes_column_checks_def cardholders_names(1))
    qed
  qed
qed

text \<open>
  Such an insert never stores the row, whatever else the row holds: an earlier check
  fails or the unique index does.
\<close>

lemma duplicate_card_number_insert:
  assumes "map_of (zip cols vs) ''card_number'' = Some (Literal v)"
      and "coerce ''card_number'' (VARCHAR 16) v = Inr (TextValue n)"
      and "list_ex (\<lambda>r. field r ''card_number'' = TextValue n) (rows_of db ''cardholders'')"
  shows "\<exists>e. fst (insert_into schema now ''cardholders'' cols [vs] db) = Some e \<and>
           rows_of (snd (insert_into schema now ''cardholders'' cols [vs] db)) = rows_of db \<and>
           (check_targets cardholders cols [vs] = None \<and>
            passes_column_checks now cardholders (zip cols vs) db \<longrightarrow>
              (\<exists>c. e = UniqueViolation c))"
proof -
  from duplicate_card_number_row [OF assms, of now] obtain e where
    e: "fst (insert_row now cardholders (zip cols vs) db) = Some e" and
    k: "passes_column_checks now cardholders (zip cols vs) db \<longrightarrow> (\<exists>c. e = UniqueViolation c)"
    by blast
  have err: "fst (insert_into schema now ''cardholders'' cols [vs] db) \<noteq> None"
    using e by (auto simp: insert_into_def cardholders_lookup split: option.splits prod.splits)
  have rows: "rows_of (snd (insert_into schema now ''cardholders'' cols [vs] db)) = rows_of db"
    using insert_into_rows_error [OF err] .
  have kind: "check_targets cardholders cols [vs] = None \<Longrightarrow>
      fst (insert_into schema now ''cardholders'' cols [vs] db) = Some e"
    using e by (auto simp: insert_into_def cardholders_lookup split: option.splits prod.splits)
  from err obtain e' where e': "fst (insert_into schema now ''cardholders'' cols [vs] db) = Some e'"
    by auto
  show ?thesis using e' rows kind k by auto
qed

text \<open>
  C5. In every database state, the insert of a cardholder row (a well-formed statement
  whose row has a value of the right type in every column and no NULL in a NOT NULL
  column) whose card_number, as the column stores it, is the card_number of an existing
  row fails with a uniqueness violation and leaves the rows of every table as they were.
\<close>

theorem duplicate_card_number_rejected:
  assumes "map_of (zip cols vs) ''card_number'' = Some (Literal v)"
      and "coerce ''card_number'' (VARCHAR 16) v = Inr (TextValue n)"
      and "list_ex (\<lambda>r. field r ''card_number'' = TextValue n) (rows_of db ''cardholders'')"
      and "check_targets cardholders cols [vs] = None"
      and "passes_column_checks now cardholders (zip cols vs) db"
  shows "(\<exists>c. fst (insert_into schema now ''cardholders'' cols [vs] db) =
            Some (UniqueViolation c)) \<and>
         rows_of (snd (insert_into schema now ''cardholders'' cols [vs] db)) = rows_of db"
  using duplicate_card_number_insert [OF assms(1-3), of now] assms(4,5) by auto

theorem duplicate_card_number_rejected_witness:
  "map_of (zip [''name'', ''card_number'', ''account_number'']
       [Literal (TextValue ''Jane Doe''), Literal (TextValue ''4111111111111111''),
        Literal (TextValue ''ACC003'')]) ''card_number'' =
     Some (Literal (TextValue ''4111111111111111'')) \<and>
   coerce ''card_number'' (VARCHAR 16) (TextValue ''4111111111111111'') =
     Inr (TextValue ''4111111111111111'') \<and>
   list_ex (\<lambda>r. field r ''card_number'' = TextValue ''4111111111111111'')
     (rows_of example_database ''cardholders'') \<and>
   check_targets cardholders [''name'', ''card_number'', ''account_number'']
     [[Literal (TextValue ''Jane Doe''), Literal (TextValue ''4111111111111111''),
       Literal (TextValue ''ACC003'')]] = None \<and>
   passes_column_checks 2 cardholders
     (zip [''name'', ''card_number'', ''account_number'']
       [Literal (TextValue ''Jane Doe''), Literal (TextValue ''4111111111111111''),
        Literal (TextValue ''ACC003'')]) example_database \<and>
   fst (insert_into schema 2 ''cardholders'' [''name'', ''card_number'', ''account_number'']
     [[Literal (TextValue ''Jane Doe''), Literal (TextValue ''4111111111111111''),
       Literal (TextValue ''ACC003'')]] example_database) =
     Some (UniqueViolation ''cardholders_card_number_key'') \<and>
   rows_of (snd (insert_into schema 2 ''cardholders'' [''name'', ''card_number'', ''account_number'']
     [[Literal (TextValue ''Jane Doe''), Literal (TextValue ''4111111111111111''),
       Literal (TextValue ''ACC003'')]] example_database)) = rows_of example_database"
proof -
  let ?cols = "[''name'', ''card_number'', ''account_number'']"
  let ?vs = "[Literal (TextValue ''Jane Doe''), Literal (TextValue ''4111111111111111''),
        Literal (TextValue ''ACC003'')]"
  have h1: "map_of (zip ?cols ?vs) ''card_number'' = Some (Literal (TextValue ''4111111111111111''))"
    by simp
  have h2: "coerce ''card_number'' (VARCHAR 16) (TextValue ''4111111111111111'') =
      Inr (TextValue ''4111111111111111'')"
    by (simp add: to_varchar_def)
  have h3: "list_ex (\<lambda>r. field r ''card_number'' = TextValue ''4111111111111111'')
      (rows_of example_database ''cardholders'')"
    by (simp add: example_database_rows field_def)
  have h4: "check_targets cardholders ?cols [?vs] = None"
    by (simp add: check_targets_def cardholders_def column_defs)
  have h5: "passes_column_checks 2 cardholders (zip ?cols ?vs) example_database"
    by (simp add: passes_column_checks_def run_defs)
  have e: "fst (insert_into schema 2 ''cardholders'' ?cols [?vs] example_database) =
      Some (UniqueViolation ''cardholders_card_number_key'')"
    by (simp add: run_defs)
  show ?thesis
    using h1 h2 h3 h4 h5 e duplicate_card_number_rejected [OF h1 h2 h3 h4 h5] by simp
qed

text \<open>
  Such an insert never stores the row, whatever else the row holds: an earlier check
  fails or the foreign key does.
\<close>

lemma unknown_cardholder_insert:
  assumes "map_of (zip cols vs) ''cardholder_id'' = Some (Literal v)"
      and "coerce ''cardholder_id'' INTEGER v = Inr (IntegerValue k)"
      and "\<not> list_ex (\<lambda>r. field r ''cardholder_id'' = IntegerValue k) (rows_of db ''cardholders'')"
  shows "\<exists>e. fst (insert_into schema now ''transactions'' cols [vs] db) = Some e \<and>
           rows_of (snd (insert_into schema now ''transactions'' cols [vs] db)) = rows_of db \<and>
           (check_targets transactions cols [vs] = None \<and>
            fst (insert_row now transactions (zip cols vs) db) = None \<longrightarrow>
              e = ForeignKeyViolation ''transactions_cardholder_id_fkey'')"
proof -
  let ?c = "REFERENCES ''cardholders'' ''cardholder_id'' (NOT_NULL (col ''cardholder_id'' INTEGER))"
  have cn: "col_name ?c = ''cardholder_id''" and ct: "col_type ?c = INTEGER"
    by (simp_all add: column_defs)
  obtain x d1 where ir: "insert_row now transactions (zip cols vs) db = (x, d1)"
    by (cases "insert_row now transactions (zip cols vs) db") auto
  have stored: "x = None \<Longrightarrow>
      fst (insert_into schema now ''transactions'' cols [vs] db) =
        (case check_targets transactions cols [vs] of
           Some e \<Rightarrow> Some e
         | None \<Rightarrow> Some (ForeignKeyViolation ''transactions_cardholder_id_fkey''))"
  proof -
    assume x: "x = None"
    from insert_row_success [of now transactions "zip cols vs" db d1] ir x
    obtain r d where br: "build_row now ''transactions'' (zip cols vs) (table_columns transactions) db = (Inr r, d)"
      and r1: "rows_of d1 = (rows_of db)(''transactions'' := rows_of db ''transactions'' @ [r])"
      by (auto simp: transactions_names(1))
    have "coerce (col_name ?c) (col_type ?c) v = Inr (field r (col_name ?c))"
      using build_row_literal [of now "''transactions''" "zip cols vs" "table_columns transactions"
          db r d ?c v] br transactions_names assms(1) cn by simp
    with assms(2) have f: "field r ''cardholder_id'' = IntegerValue k"
      by (simp add: cn ct)
    have same: "rows_of d1 ''cardholders'' = rows_of db ''cardholders''"
      using r1 by simp
    have fk: "foreign_key_violation ''transactions'' (table_columns transactions) d1 r =
        Some (ForeignKeyViolation ''transactions_cardholder_id_fkey'')"
      using f assms(3) same
      by (simp add: foreign_key_violation_def dangling_def transactions_def column_defs
          fkey_name_def)
    show ?thesis
      using ir x r1 fk
      by (simp add: insert_into_def transactions_lookup transactions_names(1)
          split: option.splits)
  qed
  have failed: "x \<noteq> None \<Longrightarrow>
      fst (insert_into schema now ''transactions'' cols [vs] db) \<noteq> None"
    using ir by (auto simp: insert_into_def transactions_lookup split: option.splits)
  have err: "fst (insert_into schema now ''transactions'' cols [vs] db) \<noteq> None"
    using stored failed by (cases x) (auto split: option.splits)
  then obtain e where e: "fst (insert_into schema now ''transactions'' cols [vs] db) = Some e"
    by auto
  have rows: "rows_of (snd (insert_into schema now ''transactions'' cols [vs] db)) = rows_of db"
    using insert_into_rows_error [OF err] .
  show ?thesis using e rows stored ir by auto
qed

text \<open>
  C6. In every database state, the insert of a transaction row (a well-formed statement
  whose row violates no type, not-null or unique constraint of the table) whose
  cardholder_id is the cardholder_id of no cardholders row fails with the foreign-key
  violation and leaves the rows of every table as they were.
\<close>

theorem unknown_cardholder_rejected:
  assumes "map_of (zip cols vs) ''cardholder_id'' = Some (Literal v)"
      and "coerce ''cardholder_id'' INTEGER v = Inr (IntegerValue k)"
      and "\<not> list_ex (\<lambda>r. field r ''cardholder_id'' = IntegerValue k)
             (rows_of db ''cardholders'')"
      and "check_targets transactions cols [vs] = None"
      and "fst (insert_row now transactions (zip cols vs) db) = None"
  shows "fst (insert_into schema now ''transactions'' cols [vs] db) =
           Some (ForeignKeyViolation ''transactions_cardholder_id_fkey'') \<and>
         rows_of (snd (insert_into schema now ''transactions'' cols [vs] db)) = rows_of db"
  using unknown_cardholder_insert [OF assms(1-3), of now] assms(4,5) by auto

theorem unknown_cardholder_rejected_witness:
  "map_of (zip [''cardholder_id'', ''amount'', ''merchant_id'', ''location'', ''date_time'']
       [Literal (IntegerValue 9), Literal (NumericValue (Dec 4250 2)),
        Literal (TextValue ''M-02''), Literal (TextValue ''Oslo''),
        Literal (TimestampValue 6)]) ''cardholder_id'' = Some (Literal (IntegerValue 9)) \<and>
   coerce ''cardholder_id'' INTEGER (IntegerValue 9) = Inr (IntegerValue 9) \<and>
   \<not> list_ex (\<lambda>r. field r ''cardholder_id'' = IntegerValue 9)
     (rows_of example_database ''cardholders'') \<and>
   check_targets transactions
     [''cardholder_id'', ''amount'', ''merchant_id'', ''location'', ''date_time'']
     [[Literal (IntegerValue 9), Literal (NumericValue (Dec 4250 2)),
       Literal (TextValue ''M-02''), Literal (TextValue ''Oslo''),
       Literal (TimestampValue 6)]] = None \<and>
   fst (insert_row 2 transactions
     (zip [''cardholder_id'', ''amount'', ''merchant_id'', ''location'', ''date_time'']
       [Literal (IntegerValue 9), Literal (NumericValue (Dec 4250 2)),
        Literal (TextValue ''M-02''), Literal (TextValue ''Oslo''),
        Literal (TimestampValue 6)]) example_database) = None \<and>
   fst (insert_into schema 2 ''transactions''
     [''cardholder_id'', ''amount'', ''merchant_id'', ''location'', ''date_time'']
     [[Literal (IntegerValue 9), Literal (NumericValue (Dec 4250 2)),
       Literal (TextValue ''M-02''), Literal (TextValue ''Oslo''),
       Literal (TimestampValue 6)]] example_database) =
     Some (ForeignKeyViolation ''transactions_cardholder_id_fkey'') \<and>
   rows_of (snd (insert_into schema 2 ''transactions''
     [''cardholder_id'', ''amount'', ''merchant_id'', ''location'', ''date_time'']
     [[Literal (IntegerValue 9), Literal (NumericValue (Dec 4250 2)),
       Literal (TextValue ''M-02''), Literal (TextValue ''Oslo''),
       Literal (TimestampValue 6)]] example_database)) = rows_of example_database"
proof -
  let ?cols = "[''cardholder_id'', ''amount'', ''merchant_id'', ''location'', ''date_time'']"
  let ?vs = "[Literal (IntegerValue 9), Literal (NumericValue (Dec 4250 2)),
        Literal (TextValue ''M-02''), Literal (TextValue ''Oslo''),
        Literal (TimestampValue 6)]"
  have h1: "map_of (zip ?cols ?vs) ''cardholder_id'' = Some (Literal (IntegerValue 9))"
    by simp
  have h2: "coerce ''cardholder_id'' INTEGER (IntegerValue 9) = Inr (IntegerValue 9)"
    by (simp add: to_integer_def)
  have h3: "\<not> list_ex (\<lambda>r. field r ''cardholder_id'' = IntegerValue 9)
      (rows_of example_database ''cardholders'')"
    by (simp add: example_database_rows field_def)
  have h4: "check_targets transactions ?cols [?vs] = None"
    by (simp add: check_targets_def transactions_def column_defs)
  have h5: "fst (insert_row 2 transactions (zip ?cols ?vs) example_database) = None"
    by (simp add: run_defs)
  show ?thesis
    using h1 h2 h3 h4 h5 unknown_cardholder_rejected [OF h1 h2 h3 h4 h5] by simp
qed

text \<open>
  C7. The script succeeds. Afterwards the behavior_profile of each of the two sample
  cardholders is the JSON value its INSERT wrote, and the text a query gets for it is
  the text of the INSERT, character by character. John Smith's profile has
  avg_transaction 85.50 and usual_merchants ["retail", "grocery"].
\<close>

theorem seed_profiles_round_trip:
  "fst (schema_script now) = None \<and>
   select_from (snd (schema_script now)) ''cardholders'' ''behavior_profile''
       (\<lambda>r. field r ''name'' = TextValue ''John Smith'') = [JsonValue john_smith_profile] \<and>
   select_from (snd (schema_script now)) ''cardholders'' ''behavior_profile''
       (\<lambda>r. field r ''name'' = TextValue ''Sarah Johnson'') = [JsonValue sarah_johnson_profile] \<and>
   jsonb_out john_smith_profile =
     ''{\"avg_transaction\": 85.50, \"usual_merchants\": [\"retail\", \"grocery\"]}'' \<and>
   jsonb_out sarah_johnson_profile =
     ''{\"avg_transaction\": 120.75, \"usual_merchants\": [\"online\", \"travel\"]}'' \<and>
   json_member john_smith_profile ''avg_transaction'' = Some (JNumber (Dec 8550 2)) \<and>
   dec_value (Dec 8550 2) = 85.50 \<and>
   json_member john_smith_profile ''usual_merchants'' =
     Some (JArray [JString ''retail'', JString ''grocery''])"
proof -
  have out1: "jsonb_out john_smith_profile =
     ''{\"avg_transaction\": 85.50, \"usual_merchants\": [\"retail\", \"grocery\"]}''"
    by (simp add: john_smith_profile_def json_quote_def json_escape_def numeric_out_def)
  have out2: "jsonb_out sarah_johnson_profile =
     ''{\"avg_transaction\": 120.75, \"usual_merchants\": [\"online\", \"travel\"]}''"
    by (simp add: sarah_johnson_profile_def json_quote_def json_escape_def numeric_out_def)
  have mem: "json_member john_smith_profile ''avg_transaction'' = Some (JNumber (Dec 8550 2))"
    "json_member john_smith_profile ''usual_merchants'' =
       Some (JArray [JString ''retail'', JString ''grocery''])"
    by (simp_all add: json_member_def john_smith_profile_def)
  have val: "dec_value (Dec 8550 2) = 85.50"
    by (simp add: dec_value_def)
  show ?thesis
    using out1 out2 mem val by (simp add: schema_script_result select_from_def field_def)
qed

text \<open>
  C8. When an insert into case_management does not name the status column and succeeds
  (so every row references an existing transaction), it appends one row for each
  \<open>VALUES\<close> list, and each of these rows has status 'Pending'.
\<close>

theorem status_defaults_to_pending:
  assumes "''status'' \<notin> set cols"
      and "insert_into schema now ''case_management'' cols vss db = (None, db')"
  shows "\<exists>news. rows_of db' ''case_management'' = rows_of db ''case_management'' @ news \<and>
           length news = length vss \<and>
           list_all (\<lambda>r. field r ''status'' = TextValue ''Pending'') news"
proof -
  let ?c = "DEFAULT (Constant (TextValue ''Pending'')) (col ''status'' (VARCHAR 20))"
  from insert_into_success [OF assms(2)] obtain news where
    rows: "rows_of db' = (rows_of db)(''case_management'' := rows_of db ''case_management'' @ news)" and
    built: "list_all2 (\<lambda>vs r. \<exists>d d'. build_row now ''case_management'' (zip cols vs)
        (table_columns case_management) d = (Inr r, d') \<and>
        not_null_violation (table_columns case_management) r = None) vss news"
    by (auto simp: case_management_lookup)
  have one: "\<And>vs r. \<exists>d d'. build_row now ''case_management'' (zip cols vs)
        (table_columns case_management) d = (Inr r, d') \<and>
        not_null_violation (table_columns case_management) r = None \<Longrightarrow>
      field r ''status'' = TextValue ''Pending''"
  proof -
    fix vs r
    assume "\<exists>d d'. build_row now ''case_management'' (zip cols vs)
        (table_columns case_management) d = (Inr r, d') \<and>
        not_null_violation (table_columns case_management) r = None"
    then obtain d d' where br: "build_row now ''case_management'' (zip cols vs)
        (table_columns case_management) d = (Inr r, d')" by blast
    from build_row_field [OF br case_management_names] obtain e e' where
      "column_value now ''case_management'' (zip cols vs) ?c e = (Inr (field r (col_name ?c)), e')"
      by blast
    then show "field r ''status'' = TextValue ''Pending''"
      using map_of_zip_absent [OF assms(1), of vs]
      by (simp add: column_value_def default_value_def column_defs to_varchar_def)
  qed
  have "list_all (\<lambda>r. field r ''status'' = TextValue ''Pending'') news"
    using list_all2_right [OF built one] .
  moreover have "length news = length vss"
    using built by (simp add: list_all2_lengthD)
  ultimately show ?thesis using rows by simp
qed

theorem status_defaults_to_pending_witness:
  "''status'' \<notin> set [''transaction_id'', ''risk_level''] \<and>
   fst (insert_into schema 2 ''case_management'' [''transaction_id'', ''risk_level'']
     [[Literal (IntegerValue 1), Literal (TextValue ''High'')]] example_database) = None \<and>
   select_from (snd (insert_into schema 2 ''case_management'' [''transaction_id'', ''risk_level'']
     [[Literal (IntegerValue 1), Literal (TextValue ''High'')]] example_database))
     ''case_management'' ''status'' (\<lambda>r. True) = [TextValue ''Pending'']"
proof -
  let ?ins = "insert_into schema 2 ''case_management'' [''transaction_id'', ''risk_level'']
     [[Literal (IntegerValue 1), Literal (TextValue ''High'')]] example_database"
  have h1: "''status'' \<notin> set [''transaction_id'', ''risk_level'']" by simp
  have ok: "fst ?ins = None"
    by (simp add: run_defs)
  then have h2: "?ins = (None, snd ?ins)"
    by (metis prod.collapse)
  from status_defaults_to_pending [OF h1 h2] obtain news where
    rows: "rows_of (snd ?ins) ''case_management'' = rows_of example_database ''case_management'' @ news"
    and len: "length news = length [[Literal (IntegerValue 1), Literal (TextValue ''High'')]]"
    and all: "list_all (\<lambda>r. field r ''status'' = TextValue ''Pending'') news"
    by blast
  from len obtain r where news: "news = [r]"
    by (cases news) auto
  with all have "field r ''status'' = TextValue ''Pending''" by simp
  with rows news have "select_from (snd ?ins) ''case_management'' ''status'' (\<lambda>r. True) =
      [TextValue ''Pending'']"
    by (simp add: select_from_def example_database_rows)
  with h1 ok show ?thesis by simp
qed

text \<open>The state after the two log entries, and what the log table holds then.\<close>

lemma logged_database_rows:
  "fst (exec schema (2, example_log) example_database) = None"
  "fst (exec schema (3, nan_log) (snd (exec schema (2, example_log) example_database))) = None"
  "rows_of (snd (exec schema (3, nan_log) (snd (exec schema (2, example_log) example_database))))
     ''fraud_detection_logs'' =
     [[(''log_id'', IntegerValue 1), (''transaction_id'', IntegerValue 1),
       (''score_rf'', NumericValue (Dec 50 2)), (''score_lr'', NumericValue (Dec 1235 2)),
       (''final_score'', NumericValue (Dec 9900 2)), (''decision'', TextValue ''approve''),
       (''created_at'', TimestampValue 2)],
      [(''log_id'', IntegerValue 2), (''transaction_id'', IntegerValue 1),
       (''score_rf'', SpecialNumeric NaN), (''score_lr'', NumericValue (Dec 75 2)),
       (''final_score'', NumericValue (Dec 75 2)), (''decision'', TextValue ''review''),
       (''created_at'', TimestampValue 3)]]"
proof -
  have first: "exec schema (2, example_log) example_database =
    (None, example_database\<lparr>
       rows_of := (rows_of example_database)(''fraud_detection_logs'' :=
         [[(''log_id'', IntegerValue 1), (''transaction_id'', IntegerValue 1),
           (''score_rf'', NumericValue (Dec 50 2)), (''score_lr'', NumericValue (Dec 1235 2)),
           (''final_score'', NumericValue (Dec 9900 2)), (''decision'', TextValue ''approve''),
           (''created_at'', TimestampValue 2)]]),
       sequences := (sequences example_database)(''fraud_detection_logs_log_id_seq'' := 2)\<rparr>)"
    by (simp add: example_log_def run_defs)
  show "fst (exec schema (2, example_log) example_database) = None"
    by (simp add: first)
  have second: "exec schema (3, nan_log) (snd (exec schema (2, example_log) example_database)) =
    (None, example_database\<lparr>
       rows_of := (rows_of example_database)(''fraud_detection_logs'' :=
         [[(''log_id'', IntegerValue 1), (''transaction_id'', IntegerValue 1),
           (''score_rf'', NumericValue (Dec 50 2)), (''score_lr'', NumericValue (Dec 1235 2)),
           (''final_score'', NumericValue (Dec 9900 2)), (''decision'', TextValue ''approve''),
           (''created_at'', TimestampValue 2)],
          [(''log_id'', IntegerValue 2), (''transaction_id'', IntegerValue 1),
           (''score_rf'', SpecialNumeric NaN), (''score_lr'', NumericValue (Dec 75 2)),
           (''final_score'', NumericValue (Dec 75 2)), (''decision'', TextValue ''review''),
           (''created_at'', TimestampValue 3)]]),
       sequences := (sequences example_database)(''fraud_detection_logs_log_id_seq'' := 3)\<rparr>)"
    by (simp only: first snd_conv) (simp add: nan_log_def run_defs)
  show "fst (exec schema (3, nan_log) (snd (exec schema (2, example_log) example_database))) = None"
    by (simp add: second)
  show "rows_of (snd (exec schema (3, nan_log) (snd (exec schema (2, example_log) example_database))))
     ''fraud_detection_logs'' =
     [[(''log_id'', IntegerValue 1), (''transaction_id'', IntegerValue 1),
       (''score_rf'', NumericValue (Dec 50 2)), (''score_lr'', NumericValue (Dec 1235 2)),
       (''final_score'', NumericValue (Dec 9900 2)), (''decision'', TextValue ''approve''),
       (''created_at'', TimestampValue 2)],
      [(''log_id'', IntegerValue 2), (''transaction_id'', IntegerValue 1),
       (''score_rf'', SpecialNumeric NaN), (''score_lr'', NumericValue (Dec 75 2)),
       (''final_score'', NumericValue (Dec 75 2)), (''decision'', TextValue ''review''),
       (''created_at'', TimestampValue 3)]]"
    by (simp add: second)
qed

text \<open>
  C10, as stated, fails. In the state the script and one transaction reach, the insert
  of a log entry whose score_rf is \<open>NaN\<close> succeeds: \<open>DECIMAL(4,2)\<close> stores
  \<open>NaN\<close>, which is no number between -100 and 100.
\<close>

theorem scores_within_decimal_4_2_counterexample:
  "fst (exec schema (2, nan_log) example_database) = None \<and>
   rows_of (snd (exec schema (2, nan_log) example_database)) ''fraud_detection_logs'' =
     [[(''log_id'', IntegerValue 1), (''transaction_id'', IntegerValue 1),
       (''score_rf'', SpecialNumeric NaN), (''score_lr'', NumericValue (Dec 75 2)),
       (''final_score'', NumericValue (Dec 75 2)), (''decision'', TextValue ''review''),
       (''created_at'', TimestampValue 2)]] \<and>
   \<not> stored_score (SpecialNumeric NaN) \<and>
   \<not> scores_in_range (snd (exec schema (2, nan_log) example_database))"
proof -
  have ins: "exec schema (2, nan_log) example_database =
    (None, example_database\<lparr>
       rows_of := (rows_of example_database)(''fraud_detection_logs'' :=
         [[(''log_id'', IntegerValue 1), (''transaction_id'', IntegerValue 1),
           (''score_rf'', SpecialNumeric NaN), (''score_lr'', NumericValue (Dec 75 2)),
           (''final_score'', NumericValue (Dec 75 2)), (''decision'', TextValue ''review''),
           (''created_at'', TimestampValue 2)]]),
       sequences := (sequences example_database)(''fraud_detection_logs_log_id_seq'' := 2)\<rparr>)"
    by (simp add: nan_log_def run_defs)
  have nan: "\<not> stored_score (SpecialNumeric NaN)"
    by (simp add: stored_score_def)
  have "\<not> scores_in_range (snd (exec schema (2, nan_log) example_database))"
    using nan by (simp add: ins scores_in_range_def score_columns_def field_def)
  with nan show ?thesis by (simp add: ins)
qed

text \<open>
  C10, amended. An insert into fraud_detection_logs that gives one of the three score
  columns a value of absolute value 100 or more (a number, or an infinity) fails and
  changes no table. In every state that insert statements reach from the empty tables,
  each stored score is \<open>NaN\<close> or a number with two fractional digits that lies
  strictly between -100 and 100.
\<close>

theorem scores_within_decimal_4_2:
  assumes "vs \<in> set vss" and "c \<in> set score_columns"
      and "map_of (zip cols vs) c = Some (Literal v)"
      and "at_least_100 v"
  shows "fst (insert_into schema now ''fraud_detection_logs'' cols vss db) \<noteq> None \<and>
         rows_of (snd (insert_into schema now ''fraud_detection_logs'' cols vss db)) = rows_of db \<and>
         scores_in_range_or_nan (run schema script empty_database)"
proof -
  have "fst (insert_rows now fraud_detection_logs cols vss db) \<noteq> None"
    using insert_rows_fails [OF assms(1)] score_insert_row_fails [OF assms(2-4)] by blast
  then have err: "fst (insert_into schema now ''fraud_detection_logs'' cols vss db) \<noteq> None"
    by (auto simp: insert_into_def fraud_detection_logs_lookup split: option.splits prod.splits)
  have "scores_in_range_or_nan empty_database"
    by (simp add: scores_in_range_or_nan_def empty_database_def)
  then have "scores_in_range_or_nan (run schema script empty_database)"
    by (rule run_keeps_scores)
  with err insert_into_rows_error [OF err] show ?thesis by simp
qed

theorem scores_within_decimal_4_2_witness:
  "[Literal (IntegerValue 1), Literal (NumericValue (Dec 10000 2)),
    Literal (NumericValue (Dec 5 1)), Literal (NumericValue (Dec 75 2)),
    Literal (TextValue ''review'')] \<in>
     set [[Literal (IntegerValue 1), Literal (NumericValue (Dec 10000 2)),
           Literal (NumericValue (Dec 5 1)), Literal (NumericValue (Dec 75 2)),
           Literal (TextValue ''review'')]] \<and>
   ''score_rf'' \<in> set score_columns \<and>
   map_of (zip [''transaction_id'', ''score_rf'', ''score_lr'', ''final_score'', ''decision'']
       [Literal (IntegerValue 1), Literal (NumericValue (Dec 10000 2)),
        Literal (NumericValue (Dec 5 1)), Literal (NumericValue (Dec 75 2)),
        Literal (TextValue ''review'')]) ''score_rf'' =
     Some (Literal (NumericValue (Dec 10000 2))) \<and>
   at_least_100 (NumericValue (Dec 10000 2)) \<and>
   fst (insert_into schema 4 ''fraud_detection_logs''
     [''transaction_id'', ''score_rf'', ''score_lr'', ''final_score'', ''decision'']
     [[Literal (IntegerValue 1), Literal (NumericValue (Dec 10000 2)),
       Literal (NumericValue (Dec 5 1)), Literal (NumericValue (Dec 75 2)),
       Literal (TextValue ''review'')]] example_database) =
     Some (NumericValueOutOfRange ''score_rf'') \<and>
   rows_of (snd (insert_into schema 4 ''fraud_detection_logs''
     [''transaction_id'', ''score_rf'', ''score_lr'', ''final_score'', ''decision'']
     [[Literal (IntegerValue 1), Literal (NumericValue (Dec 10000 2)),
       Literal (NumericValue (Dec 5 1)), Literal (NumericValue (Dec 75 2)),
       Literal (TextValue ''review'')]] example_database)) = rows_of example_database \<and>
   rows_of (run schema
       [(0, sample_data), (1, example_transaction), (2, example_log), (3, nan_log)]
       empty_database) ''fraud_detection_logs'' =
     [[(''log_id'', IntegerValue 1), (''transaction_id'', IntegerValue 1),
       (''score_rf'', NumericValue (Dec 50 2)), (''score_lr'', NumericValue (Dec 1235 2)),
       (''final_score'', NumericValue (Dec 9900 2)), (''decision'', TextValue ''approve''),
       (''created_at'', TimestampValue 2)],
      [(''log_id'', IntegerValue 2), (''transaction_id'', IntegerValue 1),
       (''score_rf'', SpecialNumeric NaN), (''score_lr'', NumericValue (Dec 75 2)),
       (''final_score'', NumericValue (Dec 75 2)), (''decision'', TextValue ''review''),
       (''created_at'', TimestampValue 3)]] \<and>
   scores_in_range_or_nan (run schema
       [(0, sample_data), (1, example_transaction), (2, example_log), (3, nan_log)]
       empty_database)"
proof -
  let ?cols = "[''transaction_id'', ''score_rf'', ''score_lr'', ''final_score'', ''decision'']"
  let ?vs = "[Literal (IntegerValue 1), Literal (NumericValue (Dec 10000 2)),
        Literal (NumericValue (Dec 5 1)), Literal (NumericValue (Dec 75 2)),
        Literal (TextValue ''review'')]"
  let ?script = "[(0, sample_data), (1, example_transaction), (2, example_log), (3, nan_log)]"
  have h1: "?vs \<in> set [?vs]" by simp
  have h2: "''score_rf'' \<in> set score_columns" by (simp add: score_columns_def)
  have h3: "map_of (zip ?cols ?vs) ''score_rf'' = Some (Literal (NumericValue (Dec 10000 2)))"
    by simp
  have h4: "at_least_100 (NumericValue (Dec 10000 2))"
    by (simp add: at_least_100_def dec_value_def)
  have e: "fst (insert_into schema 4 ''fraud_detection_logs'' ?cols [?vs] example_database) =
      Some (NumericValueOutOfRange ''score_rf'')"
    by (simp add: run_defs)
  have script: "run schema ?script empty_database =
      snd (exec schema (3, nan_log) (snd (exec schema (2, example_log) example_database)))"
    by (simp add: run_def example_database_def)
  show ?thesis
    using h1 h2 h3 h4 e
      scores_within_decimal_4_2 [OF h1 h2 h3 h4, of 4 example_database ?script]
    by (simp add: script logged_database_rows(3))
qed

end
